theory Spec2Isabelle
  imports Main "HOL-Library.AList" "HOL-Library.Sublist"
begin

section \<open>The localization service of NotesVault\<close>

text \<open>
  A shallow embedding of \<^verbatim>\<open>src/lib/services/localizationService.ts\<close> and of the
  translation registry \<^verbatim>\<open>src/resources/localization\<close>.

  The TypeScript is single threaded; an \<^verbatim>\<open>async\<close> method is modelled as the
  sequence of its statements. Module-level and instance state (the MMKV store, the
  \<^verbatim>\<open>translationCache\<close> map, the emitter's listener array, \<^verbatim>\<open>currentLanguage\<close>,
  \<^verbatim>\<open>isInitialized\<close>, the i18next instance, the console) is one record that every
  operation takes and returns. A \<^verbatim>\<open>throw\<close> is a value: an operation that may throw
  returns a \<open>completion\<close> beside the state it leaves behind.

  What the module imports but does not implement (MMKV, react-native-localize, i18next,
  the JSON tables, the subscribers' callbacks) is a parameter, collected in the record
  \<open>env\<close>: for each external call that the source wraps in \<^verbatim>\<open>try\<close>, the record says
  whether that call throws, and what it throws.
\<close>

subsection \<open>Values\<close>

text \<open>
  \<^verbatim>\<open>enum AppLanguage { en = 'en', fr = 'fr' }\<close>. At run time a member is its string, and
  the service checks membership with \<^verbatim>\<open>Object.values(AppLanguage).includes(x)\<close>, so a
  language is a string here and \<open>AppLanguage_values\<close> is \<^verbatim>\<open>Object.values(AppLanguage)\<close>.
\<close>

type_synonym AppLanguage = string

definition AppLanguage_values :: "AppLanguage list" where
  "AppLanguage_values = [''en'', ''fr'']"

definition FALLBACK_LANGUAGE :: AppLanguage where
  "FALLBACK_LANGUAGE = ''en''"

definition CURRENT_LANGUAGE :: string where
  "CURRENT_LANGUAGE = ''current_language''"

definition LANGUAGE_OVERRIDE :: string where
  "LANGUAGE_OVERRIDE = ''language_override''"

definition LANGUAGE_CACHE_PREFIX :: string where
  "LANGUAGE_CACHE_PREFIX = ''lang_cache_''"

text \<open>A translation table (\<^verbatim>\<open>Localizations\<close>): a JSON object, keys to values.\<close>

type_synonym 'v Localizations = "string \<rightharpoonup> 'v"

text \<open>A thrown JavaScript value.\<close>

datatype exn = Error string

datatype completion = Returned | Threw exn

datatype console_entry = Log string | Warn string exn | Err string exn

text \<open>An entry of \<^verbatim>\<open>getLocales()\<close>; the service reads \<^verbatim>\<open>languageCode\<close> only.\<close>

record device_locale =
  languageCode :: string
  countryCode :: string
  languageTag :: string

text \<open>
  A subscriber's callback is foreign code. The model gives it these effects on this
  module: the calls it makes on the emitter's registry while it runs, in order (an
  unsubscribe closure, named by the listener the closure was returned for, or
  \<^verbatim>\<open>onLanguageChange\<close> with a listener to subscribe), and the value it throws afterwards,
  if any. A callback that calls \<^verbatim>\<open>changeLanguage\<close>, \<^verbatim>\<open>initialize\<close> or \<^verbatim>\<open>clearCache\<close>
  while it runs is outside the model.
\<close>

datatype registry_action = Unsubscribe nat | Subscribe nat

record callback =
  actions :: "registry_action list"
  throws :: "exn option"

text \<open>The content of the MMKV instance \<^verbatim>\<open>localization-storage\<close>: keys and their strings.\<close>

type_synonym mmkv = "(string \<times> string) list"

text \<open>
  The surroundings of the module: the two JSON files; \<^verbatim>\<open>JSON.stringify\<close> on a table;
  what \<^verbatim>\<open>getLocales()\<close> returns or throws; what the store's \<^verbatim>\<open>getString\<close> and
  \<^verbatim>\<open>set\<close> throw for a key and what its \<^verbatim>\<open>clearAll\<close> throws, if anything; what
  \<^verbatim>\<open>i18n.use(...).init(...)\<close> and \<^verbatim>\<open>i18n.changeLanguage(language)\<close> throw, if
  anything; and what each subscribed function does when it is called.
\<close>

record 'v env =
  en_json :: "'v Localizations"
  fr_json :: "'v Localizations"
  stringify :: "'v Localizations \<Rightarrow> string"
  getLocales :: "exn + device_locale list"
  getString_throws :: "string \<Rightarrow> exn option"
  set_throws :: "string \<Rightarrow> exn option"
  clearAll_throws :: "exn option"
  init_throws :: "exn option"
  changeLanguage_throws :: "string \<Rightarrow> exn option"
  callbacks :: "nat \<Rightarrow> callback"

record 'v world =
  storage :: mmkv
  translationCache :: "(AppLanguage \<times> 'v Localizations) list"
  listeners :: "nat list"
  currentLanguage :: AppLanguage
  isInitialized :: bool
  i18n_language :: "string option"
  i18n_resources :: "(string \<times> 'v Localizations) list"
  console :: "console_entry list"
  delivered :: "(nat \<times> AppLanguage) list"

text \<open>
  \<open>delivered\<close> records the calls the callbacks have received, in order: the listener and
  the language passed to it. The state of a freshly loaded module over an empty store:
\<close>

definition initial_world :: "'v world" where
  "initial_world =
     \<lparr>storage = [], translationCache = [], listeners = [],
      currentLanguage = FALLBACK_LANGUAGE, isInitialized = False,
      i18n_language = None, i18n_resources = [], console = [], delivered = []\<rparr>"

definition console_add :: "console_entry \<Rightarrow> 'v world \<Rightarrow> 'v world" where
  "console_add e w = w\<lparr>console := console w @ [e]\<rparr>"

subsection \<open>The translation registry\<close>

text \<open>
  The files \<^verbatim>\<open>en.json\<close> and \<^verbatim>\<open>fr.json\<close> are not among the sources: the two tables are
  the parameters \<open>en_json\<close> and \<open>fr_json\<close>, and nothing is assumed of them (the source
  casts \<^verbatim>\<open>fr\<close> to \<^verbatim>\<open>Partial<Localizations>\<close> and the spread to \<^verbatim>\<open>Localizations\<close> without a
  check). \<^verbatim>\<open>languageSource = { en, fr }\<close> holds the tables as authored; a property
  lookup with another string is \<^verbatim>\<open>undefined\<close>.
\<close>

definition languageSource :: "'v env \<Rightarrow> AppLanguage \<Rightarrow> 'v Localizations option" where
  "languageSource env language =
     (if language = ''en'' then Some (en_json env)
      else if language = ''fr'' then Some (fr_json env)
      else None)"

text \<open>
  \<^verbatim>\<open>languageFactories = { en: () => en, fr: () => ({ ...en, ...fr }) }\<close>, called as
  \<^verbatim>\<open>languageFactories[language]()\<close>. An object spread \<^verbatim>\<open>{ ...a, ...b }\<close> is \<open>a ++ b\<close>: the
  keys of both, \<open>b\<close> winning. For a string that is no member the lookup is
  \<^verbatim>\<open>undefined\<close> and the call throws a TypeError.
\<close>

definition languageFactories :: "'v env \<Rightarrow> AppLanguage \<Rightarrow> exn + 'v Localizations" where
  "languageFactories env language =
     (if language = ''en'' then Inr (en_json env)
      else if language = ''fr'' then Inr (en_json env ++ fr_json env)
      else Inl (Error ''TypeError: languageFactories[language] is not a function''))"

subsection \<open>The store (react-native-mmkv)\<close>

text \<open>
  The store is a collaborator, not code of the module: \<^verbatim>\<open>getString\<close> gives the string
  under a key or \<^verbatim>\<open>undefined\<close>, \<^verbatim>\<open>set\<close> writes one key, \<^verbatim>\<open>clearAll\<close> removes every
  key, \<^verbatim>\<open>getAllKeys\<close> lists the keys. The three calls the source wraps in \<^verbatim>\<open>try\<close> may
  throw instead, as the environment says, leaving the store as it was.
\<close>

definition mmkv_getString :: "'v env \<Rightarrow> mmkv \<Rightarrow> string \<Rightarrow> exn + string option" where
  "mmkv_getString env st k =
     (case getString_throws env k of Some e \<Rightarrow> Inl e | None \<Rightarrow> Inr (map_of st k))"

definition mmkv_set :: "'v env \<Rightarrow> mmkv \<Rightarrow> string \<Rightarrow> string \<Rightarrow> exn + mmkv" where
  "mmkv_set env st k v =
     (case set_throws env k of Some e \<Rightarrow> Inl e | None \<Rightarrow> Inr (AList.update k v st))"

definition mmkv_clearAll :: "'v env \<Rightarrow> mmkv \<Rightarrow> exn + mmkv" where
  "mmkv_clearAll env st = (case clearAll_throws env of Some e \<Rightarrow> Inl e | None \<Rightarrow> Inr [])"

definition mmkv_getAllKeys :: "mmkv \<Rightarrow> string list" where
  "mmkv_getAllKeys st = remdups (map fst st)"

subsection \<open>LanguageChangeEmitter\<close>

text \<open>\<^verbatim>\<open>Array.prototype.indexOf\<close>: the first index holding the value, or -1.\<close>

fun indexOf :: "'a list \<Rightarrow> 'a \<Rightarrow> int" where
  "indexOf [] x = -1"
| "indexOf (y # ys) x =
     (if y = x then 0 else (let i = indexOf ys x in if i > -1 then i + 1 else -1))"

text \<open>\<^verbatim>\<open>xs.splice(index, 1)\<close> for an index in range.\<close>

definition splice1 :: "'a list \<Rightarrow> nat \<Rightarrow> 'a list" where
  "splice1 xs i = take i xs @ drop (Suc i) xs"

definition subscribe :: "nat \<Rightarrow> 'v world \<Rightarrow> 'v world" where
  "subscribe listener w = w\<lparr>listeners := listeners w @ [listener]\<rparr>"

text \<open>The closure \<^verbatim>\<open>subscribe(listener)\<close> returns.\<close>

definition unsubscribe :: "nat \<Rightarrow> 'v world \<Rightarrow> 'v world" where
  "unsubscribe listener w =
     (let index = indexOf (listeners w) listener in
      if index > -1 then w\<lparr>listeners := splice1 (listeners w) (nat index)\<rparr> else w)"

text \<open>
  One call a callback makes on the registry: an unsubscribe closure, or
  \<^verbatim>\<open>onLanguageChange(listener)\<close>, which is \<^verbatim>\<open>subscribe\<close>.
\<close>

definition perform :: "registry_action \<Rightarrow> 'v world \<Rightarrow> 'v world" where
  "perform a w = (case a of Unsubscribe l \<Rightarrow> unsubscribe l w | Subscribe l \<Rightarrow> subscribe l w)"

text \<open>Calling \<^verbatim>\<open>listener(language)\<close>.\<close>

definition invoke ::
  "(nat \<Rightarrow> callback) \<Rightarrow> nat \<Rightarrow> AppLanguage \<Rightarrow> 'v world \<Rightarrow> completion \<times> 'v world" where
  "invoke cbs listener language w =
     (let w1 = w\<lparr>delivered := delivered w @ [(listener, language)]\<rparr>;
          w2 = fold perform (actions (cbs listener)) w1
      in (case throws (cbs listener) of Some e \<Rightarrow> Threw e | None \<Rightarrow> Returned, w2))"

text \<open>
  \<^verbatim>\<open>this.listeners.forEach(listener => listener(language))\<close>. \<^verbatim>\<open>forEach\<close> reads the
  length once, then for each index \<open>k\<close> below it, in order, calls the callback on the
  element the array holds at \<open>k\<close> at that moment, if it has one. The first argument
  counts the indices still to visit.
\<close>

fun forEach_listeners ::
  "(nat \<Rightarrow> callback) \<Rightarrow> AppLanguage \<Rightarrow> nat \<Rightarrow> nat \<Rightarrow> 'v world \<Rightarrow> completion \<times> 'v world"
  where
  "forEach_listeners cbs language 0 k w = (Returned, w)"
| "forEach_listeners cbs language (Suc n) k w =
     (if k < length (listeners w) then
        (case invoke cbs (listeners w ! k) language w of
           (Threw e, w') \<Rightarrow> (Threw e, w')
         | (Returned, w') \<Rightarrow> forEach_listeners cbs language n (Suc k) w')
      else forEach_listeners cbs language n (Suc k) w)"

definition emit ::
  "(nat \<Rightarrow> callback) \<Rightarrow> AppLanguage \<Rightarrow> 'v world \<Rightarrow> completion \<times> 'v world" where
  "emit cbs language w = forEach_listeners cbs language (length (listeners w)) 0 w"

text \<open>
  For the proofs: what one call on the registry makes of the listener array (the first
  occurrence removed, or the listener appended), and the callbacks that call nothing but
  unsubscribe closures.
\<close>

fun registry_after :: "registry_action \<Rightarrow> nat list \<Rightarrow> nat list" where
  "registry_after (Unsubscribe l) xs = remove1 l xs"
| "registry_after (Subscribe l) xs = xs @ [l]"

fun is_unsubscribe :: "registry_action \<Rightarrow> bool" where
  "is_unsubscribe (Unsubscribe l) = True"
| "is_unsubscribe (Subscribe l) = False"

definition only_unsubscribes :: "callback \<Rightarrow> bool" where
  "only_unsubscribes c = list_all is_unsubscribe (actions c)"

subsection \<open>LocalizationService: reading the initial language\<close>

definition getLanguageOverride :: "'v env \<Rightarrow> 'v world \<Rightarrow> AppLanguage option \<times> 'v world" where
  "getLanguageOverride env w =
     (case mmkv_getString env (storage w) LANGUAGE_OVERRIDE of
        Inl e \<Rightarrow> (None, console_add (Warn ''Failed to get language override:'' e) w)
      | Inr None \<Rightarrow> (None, w)
      | Inr (Some override) \<Rightarrow>
          (if override \<noteq> [] \<and> override \<in> set AppLanguage_values then (Some override, w)
           else (None, w)))"

definition getSavedLanguage :: "'v env \<Rightarrow> 'v world \<Rightarrow> AppLanguage option \<times> 'v world" where
  "getSavedLanguage env w =
     (case mmkv_getString env (storage w) CURRENT_LANGUAGE of
        Inl e \<Rightarrow> (None, console_add (Warn ''Failed to get saved language:'' e) w)
      | Inr None \<Rightarrow> (None, w)
      | Inr (Some saved) \<Rightarrow>
          (if saved \<noteq> [] \<and> saved \<in> set AppLanguage_values then (Some saved, w)
           else (None, w)))"

text \<open>\<^verbatim>\<open>locales[0]?.languageCode\<close> is \<^verbatim>\<open>undefined\<close> on an empty array.\<close>

definition getDeviceLanguage :: "'v env \<Rightarrow> 'v world \<Rightarrow> AppLanguage \<times> 'v world" where
  "getDeviceLanguage env w =
     (case getLocales env of
        Inl e \<Rightarrow> (FALLBACK_LANGUAGE, console_add (Warn ''Failed to get device language:'' e) w)
      | Inr [] \<Rightarrow> (FALLBACK_LANGUAGE, w)
      | Inr (first # rest) \<Rightarrow>
          (if languageCode first \<noteq> [] \<and> languageCode first \<in> set AppLanguage_values
           then (languageCode first, w)
           else (FALLBACK_LANGUAGE, w)))"

text \<open>\<^verbatim>\<open>if (override)\<close> and \<^verbatim>\<open>if (savedLanguage)\<close> test truthiness: not null, not empty.\<close>

definition truthy :: "string option \<Rightarrow> bool" where
  "truthy v = (case v of None \<Rightarrow> False | Some s \<Rightarrow> s \<noteq> [])"

definition getInitialLanguage :: "'v env \<Rightarrow> bool \<Rightarrow> 'v world \<Rightarrow> AppLanguage \<times> 'v world" where
  "getInitialLanguage env allowLanguageOverride w =
     (let (override, w1) =
            (if allowLanguageOverride then getLanguageOverride env w else (None, w))
      in if truthy override then (the override, w1)
         else (let (savedLanguage, w2) = getSavedLanguage env w1
               in if truthy savedLanguage then (the savedLanguage, w2)
                  else getDeviceLanguage env w2))"

subsection \<open>LocalizationService: the translation cache\<close>

text \<open>
  \<^verbatim>\<open>translationCache\<close> is a JavaScript \<^verbatim>\<open>Map\<close>: \<^verbatim>\<open>set\<close> replaces the value of a key it
  has and appends a new key (\<open>AList.update\<close>), \<^verbatim>\<open>size\<close> is its length.
\<close>

definition Map_has :: "('k \<times> 'a) list \<Rightarrow> 'k \<Rightarrow> bool" where
  "Map_has m k = (k \<in> set (map fst m))"

definition saveLanguage :: "'v env \<Rightarrow> AppLanguage \<Rightarrow> 'v world \<Rightarrow> 'v world" where
  "saveLanguage env language w =
     (case mmkv_set env (storage w) CURRENT_LANGUAGE language of
        Inl e \<Rightarrow> console_add (Err ''Failed to save language:'' e) w
      | Inr st \<Rightarrow> w\<lparr>storage := st\<rparr>)"

definition cacheTranslations ::
  "'v env \<Rightarrow> AppLanguage \<Rightarrow> 'v Localizations \<Rightarrow> 'v world \<Rightarrow> 'v world" where
  "cacheTranslations env language translations w =
     (case mmkv_set env (storage w) (LANGUAGE_CACHE_PREFIX @ language)
             (stringify env translations) of
        Inl e \<Rightarrow>
          console_add (Warn (''Failed to cache translations for '' @ language @ '':'') e) w
      | Inr st \<Rightarrow> w\<lparr>storage := st\<rparr>)"

text \<open>The body of the \<^verbatim>\<open>for\<close> loop of \<^verbatim>\<open>loadTranslations\<close>, for one language.\<close>

definition loadTranslations_body ::
  "'v env \<Rightarrow> (AppLanguage \<rightharpoonup> 'v Localizations) \<Rightarrow> AppLanguage \<Rightarrow> 'v world \<Rightarrow> 'v world" where
  "loadTranslations_body env translations language w =
     (if \<not> Map_has (translationCache w) language then
        (case languageFactories env language of
           Inl e \<Rightarrow>
             console_add (Err (''Failed to load translations for '' @ language @ '':'') e) w
         | Inr baseTranslations \<Rightarrow>
             (let mergedTranslations =
                    (case translations language of
                       Some given \<Rightarrow> baseTranslations ++ given
                     | None \<Rightarrow> baseTranslations)
              in cacheTranslations env language mergedTranslations
                   (w\<lparr>translationCache :=
                        AList.update language mergedTranslations (translationCache w)\<rparr>)))
      else w)"

definition loadTranslations ::
  "'v env \<Rightarrow> (AppLanguage \<rightharpoonup> 'v Localizations) \<Rightarrow> 'v world \<Rightarrow> 'v world" where
  "loadTranslations env translations w =
     fold (loadTranslations_body env translations) AppLanguage_values w"

definition buildI18nResources :: "'v world \<Rightarrow> (string \<times> 'v Localizations) list" where
  "buildI18nResources w =
     fold (\<lambda>language resources.
             (case map_of (translationCache w) language of
                Some translations \<Rightarrow> AList.update language translations resources
              | None \<Rightarrow> resources))
          AppLanguage_values []"

definition clearCache :: "'v env \<Rightarrow> 'v world \<Rightarrow> 'v world" where
  "clearCache env w =
     (let w1 = w\<lparr>translationCache := []\<rparr> in
      case mmkv_clearAll env (storage w1) of
        Inl e \<Rightarrow> console_add (Err ''Failed to clear localization cache:'' e) w1
      | Inr st \<Rightarrow> console_add (Log ''Localization cache cleared'') (w1\<lparr>storage := st\<rparr>))"

record cache_stats =
  cachedLanguages :: nat
  storageSize :: nat

definition getCacheStats :: "'v world \<Rightarrow> cache_stats" where
  "getCacheStats w =
     \<lparr>cachedLanguages = length (translationCache w),
      storageSize = length (mmkv_getAllKeys (storage w))\<rparr>"

subsection \<open>LocalizationService: initialize, changeLanguage, t\<close>

text \<open>
  \<^verbatim>\<open>i18n.use(initReactI18next).init({lng, fallbackLng, resources, ...})\<close> and
  \<^verbatim>\<open>i18n.changeLanguage(language)\<close>: on success the engine holds the language (and the
  resources); when the call throws, the engine is taken to be left as it was.
\<close>

definition i18n_init ::
  "'v env \<Rightarrow> AppLanguage \<Rightarrow> (string \<times> 'v Localizations) list \<Rightarrow> 'v world \<Rightarrow> completion \<times> 'v world"
  where
  "i18n_init env lng resources w =
     (case init_throws env of
        Some e \<Rightarrow> (Threw e, w)
      | None \<Rightarrow> (Returned, w\<lparr>i18n_language := Some lng, i18n_resources := resources\<rparr>))"

definition i18n_changeLanguage :: "'v env \<Rightarrow> AppLanguage \<Rightarrow> 'v world \<Rightarrow> completion \<times> 'v world" where
  "i18n_changeLanguage env language w =
     (case changeLanguage_throws env language of
        Some e \<Rightarrow> (Threw e, w)
      | None \<Rightarrow> (Returned, w\<lparr>i18n_language := Some language\<rparr>))"

definition initialize ::
  "'v env \<Rightarrow> (AppLanguage \<rightharpoonup> 'v Localizations) \<Rightarrow> bool \<Rightarrow> 'v world \<Rightarrow> completion \<times> 'v world"
  where
  "initialize env translations allowLanguageOverride w =
     (if isInitialized w then (Returned, w)
      else
        (let (initialLanguage, w1) = getInitialLanguage env allowLanguageOverride w;
             w2 = loadTranslations env translations w1
         in case i18n_init env initialLanguage (buildI18nResources w2) w2 of
              (Threw e, w3) \<Rightarrow>
                (Threw e, console_add (Err ''Failed to initialize localization:'' e) w3)
            | (Returned, w3) \<Rightarrow>
                (Returned,
                 console_add
                   (Log (''Localization initialized with language: '' @ initialLanguage))
                   (w3\<lparr>currentLanguage := initialLanguage, isInitialized := True\<rparr>))))"

definition changeLanguage :: "'v env \<Rightarrow> AppLanguage \<Rightarrow> 'v world \<Rightarrow> completion \<times> 'v world" where
  "changeLanguage env language w =
     (if language \<notin> set AppLanguage_values
      then (Threw (Error (''Unsupported language: '' @ language)), w)
      else
        (case i18n_changeLanguage env language w of
           (Threw e, w1) \<Rightarrow> (Threw e, console_add (Err ''Failed to change language:'' e) w1)
         | (Returned, w1) \<Rightarrow>
             (let w2 = w1\<lparr>currentLanguage := language\<rparr>;
                  w3 = saveLanguage env language w2
              in case emit (callbacks env) language w3 of
                   (Threw e, w4) \<Rightarrow>
                     (Threw e, console_add (Err ''Failed to change language:'' e) w4)
                 | (Returned, w4) \<Rightarrow>
                     (Returned,
                      console_add (Log (''Language changed to: '' @ language)) w4))))"

text \<open>
  \<^verbatim>\<open>t(key?, options?)\<close>: \<^verbatim>\<open>if (!key) return i18n.t; return i18n.t(key, options)\<close>. The
  key is \<^verbatim>\<open>undefined\<close> (\<open>None\<close>) or a string; the result is the function \<^verbatim>\<open>i18n.t\<close> itself
  or the string the engine's lookup returns. The engine's lookup is the first argument.
\<close>

datatype t_result = LookupFunction | Resolved string

definition LocalizationService_t ::
  "(string \<Rightarrow> 'o \<Rightarrow> string) \<Rightarrow> string option \<Rightarrow> 'o \<Rightarrow> t_result" where
  "LocalizationService_t i18n_t key options =
     (if \<not> truthy key then LookupFunction else Resolved (i18n_t (the key) options))"

section \<open>The specification's wording\<close>

text \<open>
  The precedence chain of the language resolver, as the specification words it: the
  value a precedence level offers is a supported language, and a read that fails or finds
  nothing offers none.
\<close>

definition level_value :: "exn + string option \<Rightarrow> AppLanguage option" where
  "level_value r =
     (case r of
        Inl e \<Rightarrow> None
      | Inr None \<Rightarrow> None
      | Inr (Some s) \<Rightarrow> if s \<in> set AppLanguage_values then Some s else None)"

definition device_value :: "exn + device_locale list \<Rightarrow> AppLanguage option" where
  "device_value r =
     (case r of
        Inl e \<Rightarrow> None
      | Inr [] \<Rightarrow> None
      | Inr (first # rest) \<Rightarrow>
          if languageCode first \<in> set AppLanguage_values then Some (languageCode first)
          else None)"

definition precedence_chain ::
  "bool \<Rightarrow> exn + string option \<Rightarrow> exn + string option \<Rightarrow> exn + device_locale list
     \<Rightarrow> AppLanguage" where
  "precedence_chain allowOverride override saved device =
     (case (if allowOverride then level_value override else None) of
        Some l \<Rightarrow> l
      | None \<Rightarrow>
          (case level_value saved of
             Some l \<Rightarrow> l
           | None \<Rightarrow> (case device_value device of Some l \<Rightarrow> l | None \<Rightarrow> ''en'')))"

section \<open>Concrete inputs\<close>

definition demo_stringify :: "string Localizations \<Rightarrow> string" where
  "demo_stringify table =
     concat (map (\<lambda>k. case table k of Some v \<Rightarrow> k @ ''='' @ v @ '';'' | None \<Rightarrow> [])
                 [''app.name'', ''greeting''])"

definition quiet_callback :: "nat \<Rightarrow> callback" where
  "quiet_callback l = \<lparr>actions = [], throws = None\<rparr>"

text \<open>Listener 1 calls its own unsubscribe closure when it is notified.\<close>

definition leaves_on_call :: "nat \<Rightarrow> callback" where
  "leaves_on_call l =
     (if l = 1 then \<lparr>actions = [Unsubscribe 1], throws = None\<rparr>
      else \<lparr>actions = [], throws = None\<rparr>)"

text \<open>Listener 1 unsubscribes itself and subscribes listener 3 when it is notified.\<close>

definition swaps_on_call :: "nat \<Rightarrow> callback" where
  "swaps_on_call l =
     (if l = 1 then \<lparr>actions = [Unsubscribe 1, Subscribe 3], throws = None\<rparr>
      else quiet_callback l)"

definition never_throws :: "string \<Rightarrow> exn option" where
  "never_throws k = None"

definition always_throws :: "string \<Rightarrow> exn option" where
  "always_throws k = Some (Error ''disk full'')"

definition demo_env :: "string env" where
  "demo_env =
     \<lparr>en_json = [''app.name'' \<mapsto> ''NotesVault'', ''greeting'' \<mapsto> ''Hello''],
      fr_json = [''greeting'' \<mapsto> ''Bonjour''],
      stringify = demo_stringify,
      getLocales =
        Inr [\<lparr>languageCode = ''fr'', countryCode = ''FR'', languageTag = ''fr-FR''\<rparr>],
      getString_throws = never_throws,
      set_throws = never_throws,
      clearAll_throws = None,
      init_throws = None,
      changeLanguage_throws = never_throws,
      callbacks = quiet_callback\<rparr>"

text \<open>A French file that still carries a key the reference file no longer has.\<close>

definition stale_key_env :: "string env" where
  "stale_key_env =
     demo_env\<lparr>fr_json := [''greeting'' \<mapsto> ''Bonjour'', ''old.key'' \<mapsto> ''Ancien'']\<rparr>"

definition disk_full_env :: "string env" where
  "disk_full_env = demo_env\<lparr>set_throws := always_throws\<rparr>"

definition broken_engine_env :: "string env" where
  "broken_engine_env = demo_env\<lparr>init_throws := Some (Error ''i18next init failed'')\<rparr>"

definition demo_world :: "string world" where
  "demo_world =
     \<lparr>storage = [(''language_override'', ''fr''), (''current_language'', ''en'')],
      translationCache = [], listeners = [1, 2],
      currentLanguage = ''en'', isInitialized = False,
      i18n_language = None, i18n_resources = [], console = [], delivered = []\<rparr>"

definition two_subscribers :: "string world" where
  "two_subscribers = subscribe 2 (subscribe 1 initial_world)"

definition demo_translations :: "AppLanguage \<rightharpoonup> string Localizations" where
  "demo_translations = [''fr'' \<mapsto> [''greeting'' \<mapsto> ''Salut'']]"

definition demo_table :: "string Localizations" where
  "demo_table = [''app.name'' \<mapsto> ''NotesVault'', ''greeting'' \<mapsto> ''Hello'']"

text \<open>
  A stand-in for the engine's lookup on one table: the table's string, and the key itself
  for a key the table lacks.
\<close>

definition demo_i18n_t :: "string Localizations \<Rightarrow> string \<Rightarrow> unit \<Rightarrow> string" where
  "demo_i18n_t table key options = (case table key of Some s \<Rightarrow> s | None \<Rightarrow> key)"

section \<open>The language resolver\<close>

lemma supported_cases: "l \<in> set AppLanguage_values \<longleftrightarrow> l = ''en'' \<or> l = ''fr''"
  by (auto simp: AppLanguage_values_def)

lemma getLanguageOverride_fst:
  "fst (getLanguageOverride env w) =
     level_value (mmkv_getString env (storage w) LANGUAGE_OVERRIDE)"
  by (auto simp: getLanguageOverride_def level_value_def supported_cases
      split: sum.splits option.splits)

lemma getLanguageOverride_snd:
  "\<exists>es. snd (getLanguageOverride env w) = w\<lparr>console := console w @ es\<rparr>"
  by (auto simp: getLanguageOverride_def console_add_def split: sum.splits option.splits
      intro: exI [of _ "[]"])

lemma getSavedLanguage_fst:
  "fst (getSavedLanguage env w) = level_value (mmkv_getString env (storage w) CURRENT_LANGUAGE)"
  by (auto simp: getSavedLanguage_def level_value_def supported_cases
      split: sum.splits option.splits)

lemma getSavedLanguage_snd:
  "\<exists>es. snd (getSavedLanguage env w) = w\<lparr>console := console w @ es\<rparr>"
  by (auto simp: getSavedLanguage_def console_add_def split: sum.splits option.splits
      intro: exI [of _ "[]"])

lemma getDeviceLanguage_fst:
  "fst (getDeviceLanguage env w) =
     (case device_value (getLocales env) of Some l \<Rightarrow> l | None \<Rightarrow> ''en'')"
  by (auto simp: getDeviceLanguage_def device_value_def supported_cases FALLBACK_LANGUAGE_def
      split: sum.splits list.splits)

lemma getDeviceLanguage_snd:
  "\<exists>es. snd (getDeviceLanguage env w) = w\<lparr>console := console w @ es\<rparr>"
  by (auto simp: getDeviceLanguage_def console_add_def split: sum.splits list.splits
      intro: exI [of _ "[]"])

lemma level_value_supported:
  "level_value r = Some l \<Longrightarrow> l \<in> set AppLanguage_values \<and> l \<noteq> []"
  by (auto simp: level_value_def supported_cases split: sum.splits option.splits if_splits)

lemma device_value_supported: "device_value r = Some l \<Longrightarrow> l \<in> set AppLanguage_values"
  by (auto simp: device_value_def split: sum.splits list.splits if_splits)

lemma truthy_level_value_Some: "level_value r = Some a \<Longrightarrow> truthy (Some a)"
  by (auto simp: truthy_def dest: level_value_supported)

lemma getInitialLanguage_fst:
  "fst (getInitialLanguage env allow w) =
     precedence_chain allow (mmkv_getString env (storage w) LANGUAGE_OVERRIDE)
       (mmkv_getString env (storage w) CURRENT_LANGUAGE) (getLocales env)"
proof -
  obtain es where "snd (getLanguageOverride env w) = w\<lparr>console := console w @ es\<rparr>"
    using getLanguageOverride_snd by blast
  then have st: "storage (snd (getLanguageOverride env w)) = storage w"
    by simp
  have tn: "\<not> truthy None"
    by (simp add: truthy_def)
  show ?thesis
  proof (cases allow)
    case True
    show ?thesis
      using True st tn
      by (cases "level_value (mmkv_getString env (storage w) LANGUAGE_OVERRIDE)";
          cases "level_value (mmkv_getString env (storage w) CURRENT_LANGUAGE)")
        (auto simp: getInitialLanguage_def precedence_chain_def split_beta
          getLanguageOverride_fst getSavedLanguage_fst getDeviceLanguage_fst
          dest: truthy_level_value_Some)
  next
    case False
    then show ?thesis
      using tn
      by (cases "level_value (mmkv_getString env (storage w) CURRENT_LANGUAGE)")
        (auto simp: getInitialLanguage_def precedence_chain_def split_beta
          getSavedLanguage_fst getDeviceLanguage_fst dest: truthy_level_value_Some)
  qed
qed

lemma getInitialLanguage_snd:
  "\<exists>es. snd (getInitialLanguage env allow w) = w\<lparr>console := console w @ es\<rparr>"
proof -
  obtain e1 where 1: "snd (getLanguageOverride env w) = w\<lparr>console := console w @ e1\<rparr>"
    using getLanguageOverride_snd by blast
  define w1 where "w1 = snd (if allow then getLanguageOverride env w else (None, w))"
  have "\<exists>es. w1 = w\<lparr>console := console w @ es\<rparr>"
    using 1 by (auto simp: w1_def intro: exI [of _ "[]"])
  then obtain es1 where w1e: "w1 = w\<lparr>console := console w @ es1\<rparr>"
    by blast
  obtain e2 where 2: "snd (getSavedLanguage env w1) = w1\<lparr>console := console w1 @ e2\<rparr>"
    using getSavedLanguage_snd by blast
  obtain e3 where 3:
    "snd (getDeviceLanguage env (snd (getSavedLanguage env w1))) =
       (snd (getSavedLanguage env w1))
         \<lparr>console := console (snd (getSavedLanguage env w1)) @ e3\<rparr>"
    using getDeviceLanguage_snd by blast
  have "snd (getInitialLanguage env allow w) = w1 \<or>
        snd (getInitialLanguage env allow w) = snd (getSavedLanguage env w1) \<or>
        snd (getInitialLanguage env allow w) =
          snd (getDeviceLanguage env (snd (getSavedLanguage env w1)))"
    by (simp add: getInitialLanguage_def w1_def split_beta)
  then show ?thesis
    using w1e 2 3 by (elim disjE) (simp_all, blast+)
qed

lemma getInitialLanguage_frame:
  "currentLanguage (snd (getInitialLanguage env allow w)) = currentLanguage w"
  "isInitialized (snd (getInitialLanguage env allow w)) = isInitialized w"
  using getInitialLanguage_snd [of env allow w] by auto

lemma precedence_chain_supported:
  "precedence_chain allow ov sv dev \<in> set AppLanguage_values"
  by (auto simp: precedence_chain_def supported_cases split: option.splits if_splits
      dest: level_value_supported device_value_supported)

text \<open>
  Claim C1. Whatever the store holds under \<^verbatim>\<open>language_override\<close> and
  \<^verbatim>\<open>current_language\<close>, whatever the device reports, whether or not any of the three
  reads throws, and for both values of the flag, \<open>getInitialLanguage\<close> returns the first
  match of the precedence chain: the override when the flag allows it and it names a
  supported language, else the saved language when it names one, else the language code of
  the device's first locale when supported, else \<^verbatim>\<open>'en'\<close>. A failed read counts as
  no value at its level. The result is always a supported language, and the call changes
  nothing but the console, where the warnings go.
\<close>

theorem getInitialLanguage_precedence:
  "fst (getInitialLanguage env allowOverride w) =
     precedence_chain allowOverride
       (mmkv_getString env (storage w) LANGUAGE_OVERRIDE)
       (mmkv_getString env (storage w) CURRENT_LANGUAGE)
       (getLocales env)
   \<and> fst (getInitialLanguage env allowOverride w) \<in> set AppLanguage_values
   \<and> (\<exists>warnings. snd (getInitialLanguage env allowOverride w) =
          w\<lparr>console := console w @ warnings\<rparr>)"
  using getInitialLanguage_fst [of env allowOverride w]
    getInitialLanguage_snd [of env allowOverride w] precedence_chain_supported
  by simp

text \<open>
  With override \<^verbatim>\<open>fr\<close>, saved language \<^verbatim>\<open>en\<close> and a French device: \<^verbatim>\<open>fr\<close> when the
  override is allowed, and \<^verbatim>\<open>en\<close> when it is not (the saved language beats the device).
\<close>

theorem getInitialLanguage_precedence_witness:
  "fst (getInitialLanguage demo_env True demo_world) = ''fr''
   \<and> fst (getInitialLanguage demo_env False demo_world) = ''en''"
  using getInitialLanguage_precedence [of demo_env True demo_world]
    getInitialLanguage_precedence [of demo_env False demo_world]
  by (simp add: precedence_chain_def level_value_def device_value_def mmkv_getString_def
      demo_env_def demo_world_def never_throws_def LANGUAGE_OVERRIDE_def CURRENT_LANGUAGE_def
      AppLanguage_values_def)

section \<open>The translation registry\<close>

lemma languageFactories_supported:
  "l \<in> set AppLanguage_values \<Longrightarrow> \<exists>base. languageFactories env l = Inr base"
  by (auto simp: languageFactories_def supported_cases)

text \<open>
  Claim C2, as the code has it. For every supported language the table its factory
  produces holds every canonical key: its key set is the key set of the reference table
  \<^verbatim>\<open>en\<close> together with the keys of the language's own table as authored. For the
  reference language that is exactly the reference key set. For another language it is
  exactly the reference key set if and only if the language's own table has no key outside
  the reference table: the factory does not drop such a key.
\<close>

theorem languageFactories_key_set:
  assumes "language \<in> set AppLanguage_values"
  shows "\<exists>table own.
           languageFactories env language = Inr table
         \<and> languageSource env language = Some own
         \<and> dom (en_json env) \<subseteq> dom table
         \<and> dom table = dom (en_json env) \<union> dom own
         \<and> (language = ''en'' \<longrightarrow> dom table = dom (en_json env))
         \<and> (dom table = dom (en_json env) \<longleftrightarrow> dom own \<subseteq> dom (en_json env))"
proof (cases "language = ''en''")
  case True
  then show ?thesis
    by (simp add: languageFactories_def languageSource_def)
next
  case False
  then have fr: "language = ''fr''"
    using assms by (simp add: supported_cases)
  have "dom (en_json env ++ fr_json env) = dom (en_json env) \<union> dom (fr_json env)"
    by (simp add: Un_commute)
  moreover have "dom (en_json env) \<union> dom (fr_json env) = dom (en_json env)
      \<longleftrightarrow> dom (fr_json env) \<subseteq> dom (en_json env)"
    by blast
  ultimately show ?thesis
    using fr by (simp add: languageFactories_def languageSource_def)
qed

theorem languageFactories_key_set_witness:
  "''fr'' \<in> set AppLanguage_values
   \<and> (\<exists>table. languageFactories demo_env ''fr'' = Inr table
         \<and> dom table = {''app.name'', ''greeting''}
         \<and> dom table = dom (en_json demo_env))"
proof -
  have 1: "''fr'' \<in> set AppLanguage_values"
    by (simp add: AppLanguage_values_def)
  have 2: "dom (en_json demo_env) = {''app.name'', ''greeting''}"
    by (auto simp: demo_env_def)
  have 3: "languageSource demo_env ''fr'' = Some (fr_json demo_env)"
    by (simp add: languageSource_def)
  have 4: "dom (fr_json demo_env) \<subseteq> dom (en_json demo_env)"
    by (simp add: demo_env_def)
  obtain table own where t: "languageFactories demo_env ''fr'' = Inr table"
    "languageSource demo_env ''fr'' = Some own"
    "dom table = dom (en_json demo_env) \<longleftrightarrow> dom own \<subseteq> dom (en_json demo_env)"
    using languageFactories_key_set [OF 1, of demo_env] by blast
  then have "dom table = dom (en_json demo_env)"
    using 3 4 by simp
  then show ?thesis
    using 1 2 t(1) by simp
qed

text \<open>
  Claim C2 as stated fails. The French file holds \<^verbatim>\<open>old.key\<close>, which the reference file
  lacks; the French factory's table holds that key too, so its key set is not the
  reference key set.
\<close>

theorem languageFactories_extra_key_counterexample:
  "''fr'' \<in> set AppLanguage_values
   \<and> languageFactories stale_key_env ''fr'' =
       Inr (en_json stale_key_env ++ fr_json stale_key_env)
   \<and> (en_json stale_key_env ++ fr_json stale_key_env) ''old.key'' = Some ''Ancien''
   \<and> en_json stale_key_env ''old.key'' = None
   \<and> dom (en_json stale_key_env ++ fr_json stale_key_env) \<noteq> dom (en_json stale_key_env)"
proof -
  have 1: "(en_json stale_key_env ++ fr_json stale_key_env) ''old.key'' = Some ''Ancien''"
    by (simp add: stale_key_env_def)
  have 2: "en_json stale_key_env ''old.key'' = None"
    by (simp add: stale_key_env_def demo_env_def)
  have inside: "''old.key'' \<in> dom (en_json stale_key_env ++ fr_json stale_key_env)"
    using 1 by (rule domI)
  have outside: "''old.key'' \<notin> dom (en_json stale_key_env)"
    using 2 by (simp only: domIff not_not)
  have 3: "dom (en_json stale_key_env ++ fr_json stale_key_env) \<noteq> dom (en_json stale_key_env)"
  proof
    assume "dom (en_json stale_key_env ++ fr_json stale_key_env) = dom (en_json stale_key_env)"
    then have "''old.key'' \<in> dom (en_json stale_key_env)"
      using inside by (simp only:)
    then show False
      using outside by (simp only: not_True_eq_False)
  qed
  have 4: "''fr'' \<in> set AppLanguage_values"
    by (simp add: AppLanguage_values_def)
  have 5: "languageFactories stale_key_env ''fr'' =
      Inr (en_json stale_key_env ++ fr_json stale_key_env)"
    by (simp add: languageFactories_def)
  show ?thesis
    by (intro conjI) (rule 1 2 3 4 5)+
qed

section \<open>The translation cache\<close>

lemma Map_has_map_of: "Map_has m k \<longleftrightarrow> map_of m k \<noteq> None"
  by (simp add: Map_has_def map_of_eq_None_iff)

lemma cacheTranslations_frame:
  "translationCache (cacheTranslations env l table w) = translationCache w"
  "currentLanguage (cacheTranslations env l table w) = currentLanguage w"
  "isInitialized (cacheTranslations env l table w) = isInitialized w"
  "listeners (cacheTranslations env l table w) = listeners w"
  "delivered (cacheTranslations env l table w) = delivered w"
  by (simp_all add: cacheTranslations_def mmkv_set_def console_add_def split: option.splits)

lemma cacheTranslations_storage:
  "map_of (storage (cacheTranslations env l table w)) k =
     (if set_throws env (LANGUAGE_CACHE_PREFIX @ l) = None \<and> k = LANGUAGE_CACHE_PREFIX @ l
      then Some (stringify env table) else map_of (storage w) k)"
  by (simp add: cacheTranslations_def mmkv_set_def console_add_def update_conv'
      split: option.splits)

text \<open>A write that throws leaves a warning and nothing else.\<close>

lemma cacheTranslations_storage_failure:
  "set_throws env (LANGUAGE_CACHE_PREFIX @ l) = Some e \<Longrightarrow>
     cacheTranslations env l table w =
       w\<lparr>console := console w @ [Warn (''Failed to cache translations for '' @ l @ '':'') e]\<rparr>"
  by (simp add: cacheTranslations_def mmkv_set_def console_add_def)

lemma loadTranslations_body_cached:
  "Map_has (translationCache w) l \<Longrightarrow> loadTranslations_body env tr l w = w"
  by (simp add: loadTranslations_body_def)

lemma loadTranslations_body_uncached:
  assumes "\<not> Map_has (translationCache w) l" and "languageFactories env l = Inr base"
  shows "loadTranslations_body env tr l w =
           cacheTranslations env l (case tr l of None \<Rightarrow> base | Some given \<Rightarrow> base ++ given)
             (w\<lparr>translationCache :=
                  AList.update l (case tr l of None \<Rightarrow> base | Some given \<Rightarrow> base ++ given)
                    (translationCache w)\<rparr>)"
  using assms by (simp add: loadTranslations_body_def Let_def split: option.splits)

lemma loadTranslations_body_frame:
  "currentLanguage (loadTranslations_body env tr l w) = currentLanguage w"
  "isInitialized (loadTranslations_body env tr l w) = isInitialized w"
  "listeners (loadTranslations_body env tr l w) = listeners w"
  "delivered (loadTranslations_body env tr l w) = delivered w"
  by (simp_all add: loadTranslations_body_def cacheTranslations_frame console_add_def Let_def
      split: sum.splits option.splits)

lemma loadTranslations_body_has:
  "l \<in> set AppLanguage_values \<Longrightarrow>
     Map_has (translationCache (loadTranslations_body env tr l w)) l"
proof (cases "Map_has (translationCache w) l")
  case True
  then show ?thesis by (simp add: loadTranslations_body_cached)
next
  case False
  assume "l \<in> set AppLanguage_values"
  then obtain base where "languageFactories env l = Inr base"
    using languageFactories_supported by blast
  then show ?thesis
    using False
    by (simp add: loadTranslations_body_uncached cacheTranslations_frame Map_has_map_of
        update_conv')
qed

lemma loadTranslations_body_keeps:
  assumes "map_of (translationCache w) k = Some table"
  shows "map_of (translationCache (loadTranslations_body env tr l w)) k = Some table"
proof (cases "Map_has (translationCache w) l")
  case True
  then show ?thesis using assms by (simp add: loadTranslations_body_cached)
next
  case False
  then have "k \<noteq> l"
    using assms by (auto simp: Map_has_map_of)
  then show ?thesis
    using assms False
    by (simp add: loadTranslations_body_def cacheTranslations_frame console_add_def Let_def
        update_conv' split: sum.splits option.splits)
qed

lemma loadTranslations_body_keeps_has:
  "Map_has (translationCache w) k \<Longrightarrow>
     Map_has (translationCache (loadTranslations_body env tr l w)) k"
  using loadTranslations_body_keeps [of w k _ env tr l] by (auto simp: Map_has_map_of)

lemma loadTranslations_body_other_has:
  assumes "l' \<noteq> l"
  shows "Map_has (translationCache (loadTranslations_body env tr l' w)) l =
           Map_has (translationCache w) l"
  using assms
  by (auto simp: loadTranslations_body_def cacheTranslations_frame
      console_add_def Let_def Map_has_map_of update_conv' split: sum.splits option.splits)

lemma loadTranslations_body_other_store:
  assumes "l' \<noteq> l"
  shows "map_of (storage (loadTranslations_body env tr l' w)) (LANGUAGE_CACHE_PREFIX @ l) =
           map_of (storage w) (LANGUAGE_CACHE_PREFIX @ l)"
  using assms
  by (auto simp: loadTranslations_body_def cacheTranslations_storage
      console_add_def Let_def split: sum.splits option.splits)

lemma loadTranslations_body_cached_store:
  assumes "Map_has (translationCache w) l"
  shows "map_of (storage (loadTranslations_body env tr l' w)) (LANGUAGE_CACHE_PREFIX @ l) =
           map_of (storage w) (LANGUAGE_CACHE_PREFIX @ l)"
proof (cases "l' = l")
  case True
  then show ?thesis using assms by (simp add: loadTranslations_body_cached)
next
  case False
  then show ?thesis by (rule loadTranslations_body_other_store)
qed

lemma loadTranslations_body_entry:
  assumes "\<not> Map_has (translationCache w) l" and "languageFactories env l = Inr base"
  shows "map_of (translationCache (loadTranslations_body env tr l w)) l =
           Some (case tr l of None \<Rightarrow> base | Some given \<Rightarrow> base ++ given)"
  by (simp add: loadTranslations_body_uncached [OF assms] cacheTranslations_frame update_conv')

lemma loadTranslations_body_stored:
  assumes "\<not> Map_has (translationCache w) l" and "languageFactories env l = Inr base"
  shows "map_of (storage (loadTranslations_body env tr l w)) (LANGUAGE_CACHE_PREFIX @ l) =
           (case set_throws env (LANGUAGE_CACHE_PREFIX @ l) of
              None \<Rightarrow>
                Some (stringify env (case tr l of None \<Rightarrow> base | Some given \<Rightarrow> base ++ given))
            | Some e \<Rightarrow> map_of (storage w) (LANGUAGE_CACHE_PREFIX @ l))"
  by (simp add: loadTranslations_body_uncached [OF assms] cacheTranslations_storage
      split: option.splits)

text \<open>The loop runs the body for \<^verbatim>\<open>en\<close>, then for \<^verbatim>\<open>fr\<close>.\<close>

lemma loadTranslations_unfold:
  "loadTranslations env tr w =
     loadTranslations_body env tr ''fr'' (loadTranslations_body env tr ''en'' w)"
  by (simp add: loadTranslations_def AppLanguage_values_def)

lemma loadTranslations_frame:
  "currentLanguage (loadTranslations env tr w) = currentLanguage w"
  "isInitialized (loadTranslations env tr w) = isInitialized w"
  "listeners (loadTranslations env tr w) = listeners w"
  "delivered (loadTranslations env tr w) = delivered w"
  by (simp_all add: loadTranslations_unfold loadTranslations_body_frame)

lemma loadTranslations_has:
  "l \<in> set AppLanguage_values \<Longrightarrow> Map_has (translationCache (loadTranslations env tr w)) l"
  unfolding loadTranslations_unfold supported_cases
  using loadTranslations_body_has [of "''en''" env tr w]
    loadTranslations_body_has [of "''fr''" env tr "loadTranslations_body env tr ''en'' w"]
    loadTranslations_body_keeps_has
      [of "loadTranslations_body env tr ''en'' w" "''en''" env tr "''fr''"]
  by (auto simp: supported_cases)

lemma loadTranslations_all_cached:
  assumes "Map_has (translationCache w) ''en''" and "Map_has (translationCache w) ''fr''"
  shows "loadTranslations env tr w = w"
  using assms by (simp add: loadTranslations_unfold loadTranslations_body_cached)

lemma loadTranslations_keeps:
  "map_of (translationCache w) k = Some table \<Longrightarrow>
     map_of (translationCache (loadTranslations env tr w)) k = Some table"
  by (simp add: loadTranslations_unfold loadTranslations_body_keeps)

lemma loadTranslations_keeps_store:
  assumes "map_of (translationCache w) l = Some table"
  shows "map_of (storage (loadTranslations env tr w)) (LANGUAGE_CACHE_PREFIX @ l) =
           map_of (storage w) (LANGUAGE_CACHE_PREFIX @ l)"
proof -
  have 1: "Map_has (translationCache w) l"
    using assms by (simp add: Map_has_map_of)
  then have 2: "Map_has (translationCache (loadTranslations_body env tr ''en'' w)) l"
    by (rule loadTranslations_body_keeps_has)
  show ?thesis
    by (simp add: loadTranslations_unfold loadTranslations_body_cached_store [OF 2]
        loadTranslations_body_cached_store [OF 1])
qed

lemma loadTranslations_entry_en:
  assumes "\<not> Map_has (translationCache w) ''en''" and "languageFactories env ''en'' = Inr base"
  shows "map_of (translationCache (loadTranslations env tr w)) ''en'' =
           Some (case tr ''en'' of None \<Rightarrow> base | Some given \<Rightarrow> base ++ given)
         \<and> map_of (storage (loadTranslations env tr w)) (LANGUAGE_CACHE_PREFIX @ ''en'') =
             (case set_throws env (LANGUAGE_CACHE_PREFIX @ ''en'') of
                None \<Rightarrow>
                  Some (stringify env
                          (case tr ''en'' of None \<Rightarrow> base | Some given \<Rightarrow> base ++ given))
              | Some e \<Rightarrow> map_of (storage w) (LANGUAGE_CACHE_PREFIX @ ''en''))"
proof -
  have ne: "''fr'' \<noteq> ''en''" by simp
  have "map_of (translationCache (loadTranslations_body env tr ''en'' w)) ''en'' =
      Some (case tr ''en'' of None \<Rightarrow> base | Some given \<Rightarrow> base ++ given)"
    using assms by (rule loadTranslations_body_entry)
  then have "map_of (translationCache (loadTranslations env tr w)) ''en'' =
      Some (case tr ''en'' of None \<Rightarrow> base | Some given \<Rightarrow> base ++ given)"
    unfolding loadTranslations_unfold by (rule loadTranslations_body_keeps)
  then show ?thesis
    using loadTranslations_body_other_store
        [OF ne, of env tr "loadTranslations_body env tr ''en'' w"]
      loadTranslations_body_stored [OF assms, of tr]
    by (simp add: loadTranslations_unfold split: option.splits)
qed

lemma loadTranslations_entry_fr:
  assumes "\<not> Map_has (translationCache w) ''fr''" and "languageFactories env ''fr'' = Inr base"
  shows "map_of (translationCache (loadTranslations env tr w)) ''fr'' =
           Some (case tr ''fr'' of None \<Rightarrow> base | Some given \<Rightarrow> base ++ given)
         \<and> map_of (storage (loadTranslations env tr w)) (LANGUAGE_CACHE_PREFIX @ ''fr'') =
             (case set_throws env (LANGUAGE_CACHE_PREFIX @ ''fr'') of
                None \<Rightarrow>
                  Some (stringify env
                          (case tr ''fr'' of None \<Rightarrow> base | Some given \<Rightarrow> base ++ given))
              | Some e \<Rightarrow> map_of (storage w) (LANGUAGE_CACHE_PREFIX @ ''fr''))"
proof -
  have ne: "''en'' \<noteq> ''fr''" by simp
  have unc: "\<not> Map_has (translationCache (loadTranslations_body env tr ''en'' w)) ''fr''"
    using loadTranslations_body_other_has [OF ne, of env tr w] assms(1) by simp
  show ?thesis
    using loadTranslations_body_entry [OF unc assms(2), of tr]
      loadTranslations_body_stored [OF unc assms(2), of tr]
      loadTranslations_body_other_store [OF ne, of env tr w]
    by (simp add: loadTranslations_unfold split: option.splits)
qed

lemma loadTranslations_entry:
  assumes "l \<in> set AppLanguage_values"
    and "\<not> Map_has (translationCache w) l" and "languageFactories env l = Inr base"
  shows "map_of (translationCache (loadTranslations env tr w)) l =
           Some (case tr l of None \<Rightarrow> base | Some given \<Rightarrow> base ++ given)
         \<and> map_of (storage (loadTranslations env tr w)) (LANGUAGE_CACHE_PREFIX @ l) =
             (case set_throws env (LANGUAGE_CACHE_PREFIX @ l) of
                None \<Rightarrow>
                  Some (stringify env
                          (case tr l of None \<Rightarrow> base | Some given \<Rightarrow> base ++ given))
              | Some e \<Rightarrow> map_of (storage w) (LANGUAGE_CACHE_PREFIX @ l))"
  using assms loadTranslations_entry_en [of w env base tr]
    loadTranslations_entry_fr [of w env base tr]
  unfolding supported_cases by blast

text \<open>
  Claim C6. Loading is idempotent per language. For a language the cache already holds,
  the loop body does nothing at all (no factory call, no merge, no write, no log), and
  after \<open>loadTranslations\<close> its cache entry and its mirror in the store are what they were.
  A second call, with the same or with other override tables, returns the state the first
  call left.
\<close>

theorem loadTranslations_idempotent:
  "(\<forall>language table. map_of (translationCache w) language = Some table \<longrightarrow>
       loadTranslations_body env translations language w = w
       \<and> map_of (translationCache (loadTranslations env translations w)) language = Some table
       \<and> map_of (storage (loadTranslations env translations w))
             (LANGUAGE_CACHE_PREFIX @ language) =
           map_of (storage w) (LANGUAGE_CACHE_PREFIX @ language))
   \<and> loadTranslations env translations' (loadTranslations env translations w) =
       loadTranslations env translations w"
proof (intro conjI allI impI)
  fix language table
  assume a: "map_of (translationCache w) language = Some table"
  then show "loadTranslations_body env translations language w = w"
    by (simp add: loadTranslations_body_cached Map_has_map_of)
  show "map_of (translationCache (loadTranslations env translations w)) language = Some table"
    using a by (rule loadTranslations_keeps)
  show "map_of (storage (loadTranslations env translations w))
          (LANGUAGE_CACHE_PREFIX @ language) =
        map_of (storage w) (LANGUAGE_CACHE_PREFIX @ language)"
    using a by (rule loadTranslations_keeps_store)
next
  show "loadTranslations env translations' (loadTranslations env translations w) =
          loadTranslations env translations w"
    by (rule loadTranslations_all_cached) (simp_all add: loadTranslations_has supported_cases)
qed

theorem loadTranslations_idempotent_witness:
  "(\<exists>table. map_of (translationCache (loadTranslations demo_env demo_translations demo_world))
               ''en'' = Some table
      \<and> table ''greeting'' = Some ''Hello''
      \<and> loadTranslations_body demo_env Map.empty ''en''
          (loadTranslations demo_env demo_translations demo_world) =
        loadTranslations demo_env demo_translations demo_world
      \<and> map_of (translationCache (loadTranslations demo_env Map.empty
                  (loadTranslations demo_env demo_translations demo_world))) ''en'' = Some table)
   \<and> loadTranslations demo_env Map.empty (loadTranslations demo_env demo_translations demo_world) =
       loadTranslations demo_env demo_translations demo_world"
proof -
  have c: "map_of (translationCache (loadTranslations demo_env demo_translations demo_world))
      ''en'' = Some (en_json demo_env)"
    by (simp add: loadTranslations_unfold loadTranslations_body_def languageFactories_def
        cacheTranslations_frame Map_has_def demo_world_def demo_translations_def Let_def)
  have g: "en_json demo_env ''greeting'' = Some ''Hello''"
    by (simp add: demo_env_def)
  show ?thesis
    using loadTranslations_idempotent
      [of "loadTranslations demo_env demo_translations demo_world" demo_env Map.empty Map.empty]
      loadTranslations_idempotent [of demo_world demo_env demo_translations Map.empty] c g
    by simp
qed

text \<open>
  Claim C7. For a supported language that is not cached yet, \<open>loadTranslations\<close> takes
  the table of the language's factory and, when the caller gave a table for the language,
  spreads the caller's table over it, the caller's keys winning. That entry is in the
  in-memory map afterwards whether or not the store accepted the mirror. The store holds
  the serialised entry under \<^verbatim>\<open>lang_cache_<language>\<close> when the write went through; when
  the write threw, the store is as it was under that key and the in-memory entry stands.
\<close>

theorem loadTranslations_builds_entry:
  assumes "language \<in> set AppLanguage_values"
    and "\<not> Map_has (translationCache w) language"
  shows "\<exists>base entry.
           languageFactories env language = Inr base
         \<and> entry = (case translations language of None \<Rightarrow> base | Some given \<Rightarrow> base ++ given)
         \<and> (\<forall>given key. translations language = Some given \<longrightarrow>
                entry key = (case given key of Some v \<Rightarrow> Some v | None \<Rightarrow> base key))
         \<and> map_of (translationCache (loadTranslations env translations w)) language = Some entry
         \<and> map_of (storage (loadTranslations env translations w))
               (LANGUAGE_CACHE_PREFIX @ language) =
             (case set_throws env (LANGUAGE_CACHE_PREFIX @ language) of
                None \<Rightarrow> Some (stringify env entry)
              | Some e \<Rightarrow> map_of (storage w) (LANGUAGE_CACHE_PREFIX @ language))"
proof -
  obtain base where base: "languageFactories env language = Inr base"
    using assms(1) languageFactories_supported by blast
  define entry where
    "entry = (case translations language of None \<Rightarrow> base | Some given \<Rightarrow> base ++ given)"
  have wins: "\<forall>given key. translations language = Some given \<longrightarrow>
      entry key = (case given key of Some v \<Rightarrow> Some v | None \<Rightarrow> base key)"
    by (simp add: entry_def map_add_def)
  have mem_store:
    "map_of (translationCache (loadTranslations env translations w)) language = Some entry
     \<and> map_of (storage (loadTranslations env translations w))
           (LANGUAGE_CACHE_PREFIX @ language) =
         (case set_throws env (LANGUAGE_CACHE_PREFIX @ language) of
            None \<Rightarrow> Some (stringify env entry)
          | Some e \<Rightarrow> map_of (storage w) (LANGUAGE_CACHE_PREFIX @ language))"
    unfolding entry_def using assms(2) base by (rule loadTranslations_entry [OF assms(1)])
  show ?thesis
    using base wins mem_store entry_def by blast
qed

theorem loadTranslations_builds_entry_witness:
  "''fr'' \<in> set AppLanguage_values
   \<and> \<not> Map_has (translationCache demo_world) ''fr''
   \<and> (\<exists>entry. map_of (translationCache (loadTranslations demo_env demo_translations demo_world))
                  ''fr'' = Some entry
         \<and> entry ''app.name'' = Some ''NotesVault''
         \<and> entry ''greeting'' = Some ''Salut''
         \<and> map_of (storage (loadTranslations demo_env demo_translations demo_world))
               ''lang_cache_fr'' = Some ''app.name=NotesVault;greeting=Salut;'')"
proof -
  have 1: "''fr'' \<in> set AppLanguage_values"
    by (simp add: AppLanguage_values_def)
  have 2: "\<not> Map_has (translationCache demo_world) ''fr''"
    by (simp add: Map_has_def demo_world_def)
  obtain base entry where
    b: "languageFactories demo_env ''fr'' = Inr base"
    and e: "entry =
              (case demo_translations ''fr'' of None \<Rightarrow> base | Some given \<Rightarrow> base ++ given)"
    and m: "map_of (translationCache (loadTranslations demo_env demo_translations demo_world))
              ''fr'' = Some entry"
    and s: "map_of (storage (loadTranslations demo_env demo_translations demo_world))
              (LANGUAGE_CACHE_PREFIX @ ''fr'') =
            (case set_throws demo_env (LANGUAGE_CACHE_PREFIX @ ''fr'') of
               None \<Rightarrow> Some (stringify demo_env entry)
             | Some e \<Rightarrow> map_of (storage demo_world) (LANGUAGE_CACHE_PREFIX @ ''fr''))"
    using loadTranslations_builds_entry [OF 1 2, of demo_env demo_translations] by blast
  have base: "base = en_json demo_env ++ fr_json demo_env"
    using b by (simp add: languageFactories_def)
  have v: "entry ''app.name'' = Some ''NotesVault''" "entry ''greeting'' = Some ''Salut''"
    by (simp_all add: e base demo_translations_def demo_env_def)
  have "stringify demo_env entry = ''app.name=NotesVault;greeting=Salut;''"
    by (simp add: demo_env_def demo_stringify_def v)
  then have "map_of (storage (loadTranslations demo_env demo_translations demo_world))
      ''lang_cache_fr'' = Some ''app.name=NotesVault;greeting=Salut;''"
    using s by (simp add: LANGUAGE_CACHE_PREFIX_def demo_env_def never_throws_def)
  then show ?thesis
    using 1 2 m v by blast
qed

lemma clearCache_frame:
  "currentLanguage (clearCache env w) = currentLanguage w"
  "listeners (clearCache env w) = listeners w"
  "isInitialized (clearCache env w) = isInitialized w"
  "i18n_language (clearCache env w) = i18n_language w"
  "i18n_resources (clearCache env w) = i18n_resources w"
  "delivered (clearCache env w) = delivered w"
  "translationCache (clearCache env w) = []"
  by (simp_all add: clearCache_def mmkv_clearAll_def console_add_def Let_def
      split: option.splits)

text \<open>
  The source wraps the wipe in \<^verbatim>\<open>try\<close>: when \<^verbatim>\<open>clearAll\<close> throws, the in-memory map is
  already empty, the error is logged and the store keeps what it held.
\<close>

lemma clearCache_store_failure:
  "clearAll_throws env = Some e \<Longrightarrow>
     clearCache env w =
       w\<lparr>translationCache := [],
         console := console w @ [Err ''Failed to clear localization cache:'' e]\<rparr>"
  by (simp add: clearCache_def mmkv_clearAll_def console_add_def Let_def)

text \<open>
  Claim C10. \<open>clearCache\<close> empties the in-memory cache and leaves the active language
  and the subscriber list as they were; the statistics read afterwards show zero cached
  languages. The store carrying out \<^verbatim>\<open>clearAll\<close>, every key of the store is wiped and the
  statistics show zero stored keys as well.
\<close>

theorem clearCache_empties:
  "translationCache (clearCache env w) = []
   \<and> cachedLanguages (getCacheStats (clearCache env w)) = 0
   \<and> currentLanguage (clearCache env w) = currentLanguage w
   \<and> listeners (clearCache env w) = listeners w
   \<and> (clearAll_throws env = None \<longrightarrow>
        mmkv_getAllKeys (storage (clearCache env w)) = []
        \<and> getCacheStats (clearCache env w) = \<lparr>cachedLanguages = 0, storageSize = 0\<rparr>)"
  by (simp add: clearCache_def mmkv_clearAll_def console_add_def Let_def getCacheStats_def
      mmkv_getAllKeys_def split: option.splits)

text \<open>A store of two keys and a cache of two languages, cleared.\<close>

theorem clearCache_empties_witness:
  "clearAll_throws demo_env = None
   \<and> getCacheStats (loadTranslations demo_env demo_translations demo_world) =
       \<lparr>cachedLanguages = 2, storageSize = 4\<rparr>
   \<and> getCacheStats
        (clearCache demo_env (loadTranslations demo_env demo_translations demo_world)) =
       \<lparr>cachedLanguages = 0, storageSize = 0\<rparr>
   \<and> currentLanguage
        (clearCache demo_env (loadTranslations demo_env demo_translations demo_world)) = ''en''
   \<and> listeners
        (clearCache demo_env (loadTranslations demo_env demo_translations demo_world)) = [1, 2]"
proof -
  have 1: "clearAll_throws demo_env = None"
    by (simp add: demo_env_def)
  have 2: "getCacheStats (loadTranslations demo_env demo_translations demo_world) =
      \<lparr>cachedLanguages = 2, storageSize = 4\<rparr>"
    by (simp add: getCacheStats_def mmkv_getAllKeys_def loadTranslations_unfold
        loadTranslations_body_def languageFactories_def cacheTranslations_def mmkv_set_def
        Map_has_def Let_def demo_world_def demo_env_def never_throws_def
        LANGUAGE_CACHE_PREFIX_def)
  have 3: "currentLanguage (loadTranslations demo_env demo_translations demo_world) = ''en''"
    "listeners (loadTranslations demo_env demo_translations demo_world) = [1, 2]"
    by (simp_all add: loadTranslations_frame demo_world_def)
  show ?thesis
    using 1 2 3
      clearCache_empties [of demo_env "loadTranslations demo_env demo_translations demo_world"]
    by simp
qed

section \<open>initialize\<close>

lemma initialize_success:
  assumes "\<not> isInitialized w" and "init_throws env = None"
  shows "fst (initialize env tr allow w) = Returned
         \<and> isInitialized (snd (initialize env tr allow w))
         \<and> currentLanguage (snd (initialize env tr allow w)) =
             fst (getInitialLanguage env allow w)"
  using assms
  by (simp add: initialize_def i18n_init_def split_beta Let_def console_add_def)

lemma initialize_again: "isInitialized w \<Longrightarrow> initialize env tr allow w = (Returned, w)"
  by (simp add: initialize_def)

text \<open>
  Claim C9. When the engine's setup throws during \<open>initialize\<close>, the caller gets that
  very error, and the facade stays uninitialized: \<open>isInitialized\<close> is still false and
  \<open>currentLanguage\<close> is what it was before the call.
\<close>

theorem initialize_failure_stays_uninitialized:
  assumes "\<not> isInitialized w" and "init_throws env = Some e"
  shows "fst (initialize env translations allowOverride w) = Threw e
         \<and> \<not> isInitialized (snd (initialize env translations allowOverride w))
         \<and> currentLanguage (snd (initialize env translations allowOverride w)) =
             currentLanguage w"
  using assms
  by (simp add: initialize_def i18n_init_def split_beta Let_def console_add_def
      loadTranslations_frame getInitialLanguage_frame)

text \<open>
  The override \<^verbatim>\<open>fr\<close> is resolved, the engine refuses to start, and the active language
  is still \<^verbatim>\<open>en\<close>.
\<close>

theorem initialize_failure_witness:
  "\<not> isInitialized demo_world
   \<and> init_throws broken_engine_env = Some (Error ''i18next init failed'')
   \<and> fst (initialize broken_engine_env demo_translations True demo_world) =
       Threw (Error ''i18next init failed'')
   \<and> \<not> isInitialized (snd (initialize broken_engine_env demo_translations True demo_world))
   \<and> currentLanguage (snd (initialize broken_engine_env demo_translations True demo_world)) =
       ''en''"
proof -
  have 1: "\<not> isInitialized demo_world"
    by (simp add: demo_world_def)
  have 2: "init_throws broken_engine_env = Some (Error ''i18next init failed'')"
    by (simp add: broken_engine_env_def)
  have 3: "currentLanguage demo_world = ''en''"
    by (simp add: demo_world_def)
  show ?thesis
    using 1 2 3 initialize_failure_stays_uninitialized [OF 1 2, of demo_translations True]
    by simp
qed

section \<open>The change emitter\<close>

lemma indexOf_found: "indexOf xs x > -1 \<longleftrightarrow> x \<in> set xs"
  by (induction xs) (auto simp: Let_def)

lemma splice1_indexOf: "x \<in> set xs \<Longrightarrow> splice1 xs (nat (indexOf xs x)) = remove1 x xs"
proof (induction xs)
  case Nil
  then show ?case by simp
next
  case (Cons y ys)
  show ?case
  proof (cases "y = x")
    case True
    then show ?thesis by (simp add: splice1_def)
  next
    case False
    then have in_ys: "x \<in> set ys"
      using Cons.prems by simp
    then have pos: "indexOf ys x > -1"
      by (simp add: indexOf_found)
    then have "nat (indexOf ys x + 1) = Suc (nat (indexOf ys x))"
      by simp
    then show ?thesis
      using False pos Cons.IH [OF in_ys] by (simp add: splice1_def Let_def)
  qed
qed

text \<open>The unsubscribe closure removes the first occurrence of its listener, if any.\<close>

lemma unsubscribe_remove1:
  "unsubscribe l w = w\<lparr>listeners := remove1 l (listeners w)\<rparr>"
proof (cases "l \<in> set (listeners w)")
  case True
  then show ?thesis
    by (simp add: unsubscribe_def Let_def indexOf_found splice1_indexOf)
next
  case False
  then show ?thesis
    by (simp add: unsubscribe_def Let_def indexOf_found remove1_idem)
qed

lemma perform_registry: "perform a w = w\<lparr>listeners := registry_after a (listeners w)\<rparr>"
  by (cases a) (simp_all add: perform_def unsubscribe_remove1 subscribe_def)

lemma fold_perform:
  "fold perform as w = w\<lparr>listeners := fold registry_after as (listeners w)\<rparr>"
  by (induction as arbitrary: w) (simp_all add: perform_registry)

lemma invoke_eq:
  "invoke cbs l lang w =
     (case throws (cbs l) of Some e \<Rightarrow> Threw e | None \<Rightarrow> Returned,
      w\<lparr>delivered := delivered w @ [(l, lang)],
        listeners := fold registry_after (actions (cbs l)) (listeners w)\<rparr>)"
  by (simp add: invoke_def Let_def fold_perform)

text \<open>
  A removal only shifts later elements towards the front: what lies at and beyond an
  index after the removal is a sub-sequence of what lay there before.
\<close>

lemma subseq_drop_remove1: "subseq (drop n (remove1 x xs)) (drop n xs)"
proof (induction xs arbitrary: n)
  case Nil
  then show ?case by simp
next
  case (Cons y ys)
  show ?case
  proof (cases n)
    case 0
    have "subseq (remove1 x (y # ys)) (y # ys)"
      using Cons.IH [of 0] by auto
    then show ?thesis using 0 by simp
  next
    case (Suc m)
    show ?thesis
    proof (cases "x = y")
      case True
      have "suffix (drop 1 (drop m ys)) (drop m ys)"
        by (rule suffix_drop)
      then have "subseq (drop (Suc m) ys) (drop m ys)"
        by (simp add: suffix_imp_subseq)
      then show ?thesis using Suc True by simp
    next
      case False
      then show ?thesis using Suc Cons.IH [of m] by simp
    qed
  qed
qed

lemma subseq_drop_unsubscriptions:
  "list_all is_unsubscribe as \<Longrightarrow>
     subseq (drop n (fold registry_after as xs)) (drop n xs)"
proof (induction as arbitrary: xs)
  case Nil
  then show ?case by simp
next
  case (Cons a as)
  then obtain l where a: "a = Unsubscribe l"
    by (cases a) simp_all
  have "subseq (drop n (fold registry_after as (remove1 l xs))) (drop n (remove1 l xs))"
    using Cons by simp
  then show ?case
    using subseq_drop_remove1 [of n l xs] by (auto simp: a intro: subseq_order.trans)
qed

lemma set_unsubscriptions:
  "list_all is_unsubscribe as \<Longrightarrow> set (fold registry_after as xs) \<subseteq> set xs"
  using subseq_drop_unsubscriptions [of as 0 xs] by (auto dest: list_emb_set)

text \<open>
  The invariant of the \<^verbatim>\<open>forEach\<close> loop while the listeners called only unsubscribe: the
  listeners called from index \<open>k\<close> on are a sub-sequence of what the array held from \<open>k\<close>
  on when the loop got there.
\<close>

lemma forEach_listeners_trace:
  "\<forall>l \<in> set (listeners w). only_unsubscribes (cbs l) \<Longrightarrow>
     \<exists>called. delivered (snd (forEach_listeners cbs lang n k w)) =
                delivered w @ map (\<lambda>l. (l, lang)) called
              \<and> subseq called (drop k (listeners w))"
proof (induction n arbitrary: k w)
  case 0
  show ?case by (intro exI [of _ "[]"]) simp
next
  case (Suc n)
  show ?case
  proof (cases "k < length (listeners w)")
    case False
    then show ?thesis
      using Suc.IH [of w "Suc k"] Suc.prems by simp
  next
    case True
    define l where "l = listeners w ! k"
    define w' where "w' = snd (invoke cbs l lang w)"
    have lin: "l \<in> set (listeners w)"
      using True by (simp add: l_def)
    then have only: "list_all is_unsubscribe (actions (cbs l))"
      using Suc.prems by (simp add: only_unsubscribes_def)
    have w': "delivered w' = delivered w @ [(l, lang)]"
      "listeners w' = fold registry_after (actions (cbs l)) (listeners w)"
      by (simp_all add: w'_def invoke_eq)
    have "set (listeners w') \<subseteq> set (listeners w)"
      using set_unsubscriptions [OF only] by (simp add: w')
    then have prems': "\<forall>l \<in> set (listeners w'). only_unsubscribes (cbs l)"
      using Suc.prems by blast
    have dropk: "drop k (listeners w) = l # drop (Suc k) (listeners w)"
      using True by (simp add: l_def Cons_nth_drop_Suc)
    show ?thesis
    proof (cases "fst (invoke cbs l lang w)")
      case (Threw e)
      then have "invoke cbs l lang w = (Threw e, w')"
        by (simp add: w'_def prod_eq_iff)
      then have "forEach_listeners cbs lang (Suc n) k w = (Threw e, w')"
        using True by (simp add: l_def [symmetric])
      moreover have "subseq [l] (drop k (listeners w))"
        by (simp add: dropk)
      ultimately show ?thesis
        using w' by (intro exI [of _ "[l]"]) simp
    next
      case Returned
      then have "invoke cbs l lang w = (Returned, w')"
        by (simp add: w'_def prod_eq_iff)
      then have step: "forEach_listeners cbs lang (Suc n) k w =
          forEach_listeners cbs lang n (Suc k) w'"
        using True by (simp add: l_def [symmetric])
      obtain called where c:
        "delivered (snd (forEach_listeners cbs lang n (Suc k) w')) =
           delivered w' @ map (\<lambda>l. (l, lang)) called"
        "subseq called (drop (Suc k) (listeners w'))"
        using Suc.IH [OF prems', of "Suc k"] by blast
      have "subseq called (drop (Suc k) (listeners w))"
        using c(2) subseq_drop_unsubscriptions [OF only, of "Suc k" "listeners w"]
        by (auto simp: w' intro: subseq_order.trans)
      then have "subseq (l # called) (drop k (listeners w))"
        by (simp add: dropk)
      then show ?thesis
        using c(1) w' step by (intro exI [of _ "l # called"]) simp
    qed
  qed
qed

text \<open>The emit throws only what a callback throws.\<close>

lemma forEach_listeners_returns:
  "\<forall>l. throws (cbs l) = None \<Longrightarrow> fst (forEach_listeners cbs lang n k w) = Returned"
proof (induction n arbitrary: k w)
  case 0
  then show ?case by simp
next
  case (Suc n)
  show ?case
  proof (cases "k < length (listeners w)")
    case False
    then show ?thesis using Suc.IH [of "Suc k" w] Suc.prems by simp
  next
    case True
    define w' where "w' = snd (invoke cbs (listeners w ! k) lang w)"
    have "invoke cbs (listeners w ! k) lang w = (Returned, w')"
      using Suc.prems by (simp add: w'_def invoke_eq)
    then show ?thesis
      using True Suc.IH [OF Suc.prems, of "Suc k" w'] by simp
  qed
qed

lemma forEach_listeners_returns_registered:
  "\<forall>l \<in> set (listeners w). only_unsubscribes (cbs l) \<and> throws (cbs l) = None \<Longrightarrow>
     fst (forEach_listeners cbs lang n k w) = Returned"
proof (induction n arbitrary: k w)
  case 0
  then show ?case by simp
next
  case (Suc n)
  show ?case
  proof (cases "k < length (listeners w)")
    case False
    then show ?thesis using Suc.IH [of w "Suc k"] Suc.prems by simp
  next
    case True
    define l where "l = listeners w ! k"
    define w' where "w' = snd (invoke cbs l lang w)"
    have lin: "l \<in> set (listeners w)"
      using True by (simp add: l_def)
    then have ret: "fst (invoke cbs l lang w) = Returned"
      using Suc.prems by (simp add: invoke_eq)
    have "list_all is_unsubscribe (actions (cbs l))"
      using lin Suc.prems by (simp add: only_unsubscribes_def)
    then have "set (listeners w') \<subseteq> set (listeners w)"
      using set_unsubscriptions by (simp add: w'_def invoke_eq)
    then have "\<forall>l \<in> set (listeners w'). only_unsubscribes (cbs l) \<and> throws (cbs l) = None"
      using Suc.prems by blast
    then have "fst (forEach_listeners cbs lang n (Suc k) w') = Returned"
      by (rule Suc.IH)
    moreover have "invoke cbs l lang w = (Returned, w')"
      using ret by (simp add: w'_def prod_eq_iff)
    ultimately show ?thesis
      using True by (simp add: l_def [symmetric])
  qed
qed

text \<open>Over a stretch of listeners that leave the registry alone and do not throw.\<close>

lemma forEach_listeners_quiet:
  assumes "\<forall>l \<in> set (take n (drop k (listeners w))).
             actions (cbs l) = [] \<and> throws (cbs l) = None"
  shows "forEach_listeners cbs lang n k w =
           (Returned, w\<lparr>delivered := delivered w @
                          map (\<lambda>l. (l, lang)) (take n (drop k (listeners w)))\<rparr>)"
  using assms
proof (induction n arbitrary: k w)
  case 0
  then show ?case by simp
next
  case (Suc n)
  show ?case
  proof (cases "k < length (listeners w)")
    case False
    then show ?thesis using Suc.IH [of "Suc k" w] by simp
  next
    case True
    define l where "l = listeners w ! k"
    have dropk: "drop k (listeners w) = l # drop (Suc k) (listeners w)"
      using True by (simp add: l_def Cons_nth_drop_Suc)
    have q: "actions (cbs l) = [] \<and> throws (cbs l) = None"
      using Suc.prems by (simp add: dropk)
    have inv: "invoke cbs l lang w = (Returned, w\<lparr>delivered := delivered w @ [(l, lang)]\<rparr>)"
      using q by (simp add: invoke_eq)
    have "forEach_listeners cbs lang n (Suc k) (w\<lparr>delivered := delivered w @ [(l, lang)]\<rparr>) =
        (Returned, (w\<lparr>delivered := delivered w @ [(l, lang)]\<rparr>)
           \<lparr>delivered := delivered (w\<lparr>delivered := delivered w @ [(l, lang)]\<rparr>) @
               map (\<lambda>l. (l, lang)) (take n (drop (Suc k)
                 (listeners (w\<lparr>delivered := delivered w @ [(l, lang)]\<rparr>))))\<rparr>)"
      by (rule Suc.IH) (use Suc.prems in \<open>simp add: dropk\<close>)
    then show ?thesis
      using True inv by (simp add: l_def [symmetric] dropk)
  qed
qed

lemma emit_quiet:
  assumes "\<forall>l \<in> set (listeners w). actions (cbs l) = [] \<and> throws (cbs l) = None"
  shows "emit cbs lang w =
           (Returned, w\<lparr>delivered := delivered w @ map (\<lambda>l. (l, lang)) (listeners w)\<rparr>)"
proof -
  have "\<forall>l \<in> set (take (length (listeners w)) (drop 0 (listeners w))).
      actions (cbs l) = [] \<and> throws (cbs l) = None"
    using assms by simp
  then show ?thesis
    using forEach_listeners_quiet [of "length (listeners w)" 0 w cbs lang]
    by (simp add: emit_def)
qed

text \<open>A loop over \<open>m + n\<close> indices is a loop over \<open>m\<close> of them, then over the other \<open>n\<close>.\<close>

lemma forEach_listeners_add:
  "forEach_listeners cbs lang (m + n) k w =
     (case forEach_listeners cbs lang m k w of
        (Threw e, w') \<Rightarrow> (Threw e, w')
      | (Returned, w') \<Rightarrow> forEach_listeners cbs lang n (k + m) w')"
proof (induction m arbitrary: k w)
  case 0
  then show ?case by simp
next
  case (Suc m)
  show ?case
  proof (cases "k < length (listeners w)")
    case False
    then show ?thesis
      using Suc.IH [of "Suc k" w] by (simp split: prod.splits completion.splits)
  next
    case True
    show ?thesis
    proof (cases "throws (cbs (listeners w ! k))")
      case (Some e)
      then show ?thesis using True by (simp add: invoke_eq)
    next
      case None
      then show ?thesis
        using True Suc.IH [of "Suc k"]
        by (simp add: invoke_eq split: prod.splits completion.splits)
    qed
  qed
qed

text \<open>
  The listener at one index unsubscribes itself when called; those before and after the
  next one leave the registry alone. The next one moves down to the index just visited and
  is never called.
\<close>

lemma emit_passes_over_next:
  assumes L: "listeners w = xs @ a # b # ys"
    and a: "a \<notin> set xs" "actions (cbs a) = [Unsubscribe a]" "throws (cbs a) = None"
    and q: "\<forall>l \<in> set xs \<union> set ys. actions (cbs l) = [] \<and> throws (cbs l) = None"
  shows "emit cbs lang w =
           (Returned,
            w\<lparr>listeners := xs @ b # ys,
              delivered := delivered w @ map (\<lambda>l. (l, lang)) (xs @ a # ys)\<rparr>)"
proof -
  define w1 where "w1 = w\<lparr>delivered := delivered w @ map (\<lambda>l. (l, lang)) xs\<rparr>"
  define w2 where
    "w2 = w1\<lparr>delivered := delivered w1 @ [(a, lang)], listeners := xs @ b # ys\<rparr>"
  have 1: "forEach_listeners cbs lang (length xs) 0 w = (Returned, w1)"
  proof -
    have "\<forall>l \<in> set (take (length xs) (drop 0 (listeners w))).
        actions (cbs l) = [] \<and> throws (cbs l) = None"
      using q by (simp add: L)
    then show ?thesis
      using forEach_listeners_quiet [of "length xs" 0 w cbs lang] by (simp add: L w1_def)
  qed
  have L1: "listeners w1 = xs @ a # b # ys"
    by (simp add: w1_def L)
  have inv: "invoke cbs a lang w1 = (Returned, w2)"
    using a by (simp add: invoke_eq w2_def L1 remove1_append)
  have 3: "forEach_listeners cbs lang (Suc (length ys)) (Suc (length xs)) w2 =
      (Returned, w2\<lparr>delivered := delivered w2 @ map (\<lambda>l. (l, lang)) ys\<rparr>)"
  proof -
    have d: "take (Suc (length ys)) (drop (Suc (length xs)) (listeners w2)) = ys"
      by (simp add: w2_def)
    then have "\<forall>l \<in> set (take (Suc (length ys)) (drop (Suc (length xs)) (listeners w2))).
        actions (cbs l) = [] \<and> throws (cbs l) = None"
      using q by simp
    then show ?thesis
      using forEach_listeners_quiet [of "Suc (length ys)" "Suc (length xs)" w2 cbs lang]
      by (simp only: d)
  qed
  have 2: "forEach_listeners cbs lang (Suc (Suc (length ys))) (length xs) w1 =
      (Returned, w2\<lparr>delivered := delivered w2 @ map (\<lambda>l. (l, lang)) ys\<rparr>)"
    using inv 3 by (simp add: L1)
  have "emit cbs lang w =
      forEach_listeners cbs lang (length xs + Suc (Suc (length ys))) 0 w"
    by (simp add: emit_def L)
  also have "\<dots> = (Returned, w2\<lparr>delivered := delivered w2 @ map (\<lambda>l. (l, lang)) ys\<rparr>)"
    using forEach_listeners_add [of cbs lang "length xs" "Suc (Suc (length ys))" 0 w]
    by (simp only: 1 2 prod.case completion.case add_0)
  finally show ?thesis
    by (simp add: w2_def w1_def)
qed

text \<open>
  Claim C4, as the code has it. An unsubscription during an emit does not crash the emit:
  \<open>emit\<close> returns whenever no listener throws. But \<open>emit\<close> walks the live array by index,
  not a snapshot, and does not call every listener registered when it began. When the
  registered listeners only unsubscribe (none subscribes) during the emit, the listeners
  called are a sub-sequence, in order, of the listeners registered at the start, and the
  emit returns if none of them throws. When a listener unsubscribes itself while it is
  called (it stands nowhere earlier in the array, and the listeners before it and after
  the next one leave the registry alone and do not throw), the listener registered right
  after it is passed over and the others are called. When no registered listener
  unsubscribes, subscribes or throws during the emit, every one of them is called, once,
  in subscription order.
\<close>

theorem emit_iterates_live_registry:
  "((\<forall>l. throws (cbs l) = None) \<longrightarrow> fst (emit cbs language w) = Returned)
   \<and> ((\<forall>l \<in> set (listeners w). only_unsubscribes (cbs l)) \<longrightarrow>
        (\<exists>called. delivered (snd (emit cbs language w)) =
                     delivered w @ map (\<lambda>l. (l, language)) called
                   \<and> subseq called (listeners w))
        \<and> ((\<forall>l \<in> set (listeners w). throws (cbs l) = None) \<longrightarrow>
             fst (emit cbs language w) = Returned))
   \<and> (\<forall>xs a b ys.
         listeners w = xs @ a # b # ys \<and> a \<notin> set xs
         \<and> actions (cbs a) = [Unsubscribe a] \<and> throws (cbs a) = None
         \<and> (\<forall>l \<in> set xs \<union> set ys. actions (cbs l) = [] \<and> throws (cbs l) = None) \<longrightarrow>
         emit cbs language w =
           (Returned,
            w\<lparr>listeners := xs @ b # ys,
              delivered := delivered w @ map (\<lambda>l. (l, language)) (xs @ a # ys)\<rparr>))
   \<and> ((\<forall>l \<in> set (listeners w). actions (cbs l) = [] \<and> throws (cbs l) = None) \<longrightarrow>
        emit cbs language w =
          (Returned,
           w\<lparr>delivered := delivered w @ map (\<lambda>l. (l, language)) (listeners w)\<rparr>))"
proof (intro conjI impI allI)
  assume "\<forall>l. throws (cbs l) = None"
  then show "fst (emit cbs language w) = Returned"
    unfolding emit_def by (rule forEach_listeners_returns)
next
  assume "\<forall>l \<in> set (listeners w). only_unsubscribes (cbs l)"
  then show "\<exists>called. delivered (snd (emit cbs language w)) =
                   delivered w @ map (\<lambda>l. (l, language)) called
                 \<and> subseq called (listeners w)"
    using forEach_listeners_trace [of w cbs language "length (listeners w)" 0]
    by (simp add: emit_def)
next
  assume "\<forall>l \<in> set (listeners w). only_unsubscribes (cbs l)"
    and "\<forall>l \<in> set (listeners w). throws (cbs l) = None"
  then have "\<forall>l \<in> set (listeners w). only_unsubscribes (cbs l) \<and> throws (cbs l) = None"
    by simp
  then show "fst (emit cbs language w) = Returned"
    unfolding emit_def by (rule forEach_listeners_returns_registered)
next
  fix xs a b ys
  assume "listeners w = xs @ a # b # ys \<and> a \<notin> set xs
      \<and> actions (cbs a) = [Unsubscribe a] \<and> throws (cbs a) = None
      \<and> (\<forall>l \<in> set xs \<union> set ys. actions (cbs l) = [] \<and> throws (cbs l) = None)"
  then show "emit cbs language w =
      (Returned,
       w\<lparr>listeners := xs @ b # ys,
         delivered := delivered w @ map (\<lambda>l. (l, language)) (xs @ a # ys)\<rparr>)"
    using emit_passes_over_next [of w xs a b ys cbs language] by blast
next
  assume "\<forall>l \<in> set (listeners w). actions (cbs l) = [] \<and> throws (cbs l) = None"
  then show "emit cbs language w =
      (Returned, w\<lparr>delivered := delivered w @ map (\<lambda>l. (l, language)) (listeners w)\<rparr>)"
    by (rule emit_quiet)
qed

text \<open>
  Listeners 1 and 2, listener 1 unsubscribing itself: the emit returns, listener 2 is
  passed over and is the one left registered. With two listeners that leave the registry
  alone, both are called.
\<close>

theorem emit_iterates_live_registry_witness:
  "listeners two_subscribers = [] @ 1 # 2 # []
   \<and> actions (leaves_on_call 1) = [Unsubscribe 1] \<and> throws (leaves_on_call 1) = None
   \<and> only_unsubscribes (leaves_on_call 1) \<and> only_unsubscribes (leaves_on_call 2)
   \<and> emit leaves_on_call ''fr'' two_subscribers =
       (Returned, two_subscribers\<lparr>listeners := [2], delivered := [(1, ''fr'')]\<rparr>)
   \<and> (\<exists>called. delivered (snd (emit leaves_on_call ''fr'' two_subscribers)) =
         map (\<lambda>l. (l, ''fr'')) called \<and> subseq called [1, 2])
   \<and> emit quiet_callback ''fr'' two_subscribers =
       (Returned, two_subscribers\<lparr>delivered := [(1, ''fr''), (2, ''fr'')]\<rparr>)"
proof -
  have ls: "listeners two_subscribers = [1, 2]" "delivered two_subscribers = []"
    by (simp_all add: two_subscribers_def subscribe_def initial_world_def)
  have a: "actions (leaves_on_call 1) = [Unsubscribe 1]" "throws (leaves_on_call 1) = None"
    "only_unsubscribes (leaves_on_call 1)" "only_unsubscribes (leaves_on_call 2)"
    by (simp_all add: leaves_on_call_def only_unsubscribes_def)
  have only: "\<forall>l \<in> set (listeners two_subscribers). only_unsubscribes (leaves_on_call l)"
    using a by (simp add: ls)
  have quiet: "\<forall>l \<in> set (listeners two_subscribers).
      actions (quiet_callback l) = [] \<and> throws (quiet_callback l) = None"
    by (simp add: quiet_callback_def)
  have skip: "listeners two_subscribers = [] @ 1 # 2 # [] \<and> 1 \<notin> set []
      \<and> actions (leaves_on_call 1) = [Unsubscribe 1] \<and> throws (leaves_on_call 1) = None
      \<and> (\<forall>l \<in> set [] \<union> set []. actions (leaves_on_call l) = [] \<and> throws (leaves_on_call l) = None)"
    using a by (simp add: ls)
  note thm1 = emit_iterates_live_registry [of leaves_on_call "''fr''" two_subscribers]
  note thm2 = emit_iterates_live_registry [of quiet_callback "''fr''" two_subscribers]
  have 1: "emit leaves_on_call ''fr'' two_subscribers =
      (Returned,
       two_subscribers\<lparr>listeners := [] @ 2 # [],
         delivered := delivered two_subscribers @ map (\<lambda>l. (l, ''fr'')) ([] @ 1 # [])\<rparr>)"
    using thm1 skip by blast
  have 2: "\<exists>called. delivered (snd (emit leaves_on_call ''fr'' two_subscribers)) =
      delivered two_subscribers @ map (\<lambda>l. (l, ''fr'')) called
      \<and> subseq called (listeners two_subscribers)"
    using thm1 only by blast
  have 3: "emit quiet_callback ''fr'' two_subscribers =
      (Returned, two_subscribers\<lparr>delivered := delivered two_subscribers @
         map (\<lambda>l. (l, ''fr'')) (listeners two_subscribers)\<rparr>)"
    using thm2 quiet by blast
  show ?thesis
    using a 2 by (simp add: 1 3 ls)
qed

text \<open>
  Claim C4 as stated fails. Listeners 1 and 2 are subscribed, in that order, and listener
  1 unsubscribes itself when called. The emit returns, having called listener 1 only:
  after the removal listener 2 sits at index 0, which \<^verbatim>\<open>forEach\<close> has left behind, and
  index 1 is empty.
\<close>

theorem emit_skips_listener_counterexample:
  "listeners two_subscribers = [1, 2]
   \<and> fst (emit leaves_on_call ''fr'' two_subscribers) = Returned
   \<and> delivered (snd (emit leaves_on_call ''fr'' two_subscribers)) = [(1, ''fr'')]
   \<and> (2, ''fr'') \<notin> set (delivered (snd (emit leaves_on_call ''fr'' two_subscribers)))"
  by (simp add: emit_def two_subscribers_def subscribe_def initial_world_def invoke_def
      leaves_on_call_def perform_def unsubscribe_def splice1_def Let_def)

text \<open>
  A listener that subscribes during the emit can bring in a listener that was not
  registered when the emit began: listener 1 unsubscribes itself and subscribes listener 3,
  the array becomes \<open>[2, 3]\<close>, and index 1 calls listener 3 while listener 2 is passed over.
\<close>

lemma emit_calls_late_subscriber:
  "emit swaps_on_call ''fr'' two_subscribers =
     (Returned, two_subscribers\<lparr>listeners := [2, 3], delivered := [(1, ''fr''), (3, ''fr'')]\<rparr>)"
  by (simp add: emit_def two_subscribers_def subscribe_def initial_world_def invoke_def
      swaps_on_call_def quiet_callback_def perform_def unsubscribe_def splice1_def Let_def)

section \<open>changeLanguage\<close>

text \<open>
  Claim C3. For every language outside the supported set, \<open>changeLanguage\<close> throws the
  unsupported-language error before it touches anything: the whole state (active language,
  store, translation cache, subscriber list, engine, console) is what it was, and no
  listener has been called.
\<close>

theorem changeLanguage_unsupported:
  assumes "language \<notin> set AppLanguage_values"
  shows "changeLanguage env language w =
           (Threw (Error (''Unsupported language: '' @ language)), w)"
  using assms by (simp add: changeLanguage_def)

theorem changeLanguage_unsupported_witness:
  "''de'' \<notin> set AppLanguage_values
   \<and> changeLanguage demo_env ''de'' demo_world =
       (Threw (Error ''Unsupported language: de''), demo_world)"
proof -
  have 1: "''de'' \<notin> set AppLanguage_values"
    by (simp add: AppLanguage_values_def)
  show ?thesis
    using 1 changeLanguage_unsupported [OF 1, of demo_env demo_world] by simp
qed

lemma saveLanguage_failure:
  "set_throws env CURRENT_LANGUAGE = Some e \<Longrightarrow>
     saveLanguage env language w =
       w\<lparr>console := console w @ [Err ''Failed to save language:'' e]\<rparr>"
  by (simp add: saveLanguage_def mmkv_set_def console_add_def)

lemma saveLanguage_success:
  "set_throws env CURRENT_LANGUAGE = None \<Longrightarrow>
     saveLanguage env language w =
       w\<lparr>storage := AList.update CURRENT_LANGUAGE language (storage w)\<rparr>"
  by (simp add: saveLanguage_def mmkv_set_def)

lemma saveLanguage_shape:
  "\<exists>s c. saveLanguage env language (w\<lparr>i18n_language := i, currentLanguage := a\<rparr>) =
           w\<lparr>storage := s, console := c, currentLanguage := a, i18n_language := i\<rparr>"
proof (cases "set_throws env CURRENT_LANGUAGE")
  case None
  have "saveLanguage env language (w\<lparr>i18n_language := i, currentLanguage := a\<rparr>) =
      w\<lparr>storage := AList.update CURRENT_LANGUAGE language (storage w), console := console w,
        currentLanguage := a, i18n_language := i\<rparr>"
    by (simp add: saveLanguage_success [OF None])
  then show ?thesis by blast
next
  case (Some e)
  have "saveLanguage env language (w\<lparr>i18n_language := i, currentLanguage := a\<rparr>) =
      w\<lparr>storage := storage w, console := console w @ [Err ''Failed to save language:'' e],
        currentLanguage := a, i18n_language := i\<rparr>"
    by (simp add: saveLanguage_failure [OF Some])
  then show ?thesis by blast
qed

text \<open>
  The emit reads and writes the listener array and the callbacks' record of calls, and
  nothing else of the state.
\<close>

lemma forEach_listeners_frame:
  "forEach_listeners cbs lang n k
     (w\<lparr>storage := s, console := c, currentLanguage := a, i18n_language := i\<rparr>) =
     (fst (forEach_listeners cbs lang n k w),
      (snd (forEach_listeners cbs lang n k w))
        \<lparr>storage := s, console := c, currentLanguage := a, i18n_language := i\<rparr>)"
proof (induction n arbitrary: k w)
  case 0
  then show ?case by simp
next
  case (Suc n)
  show ?case
  proof (cases "k < length (listeners w)")
    case False
    then show ?thesis using Suc.IH [of "Suc k" w] by simp
  next
    case True
    define w' where
      "w' = w\<lparr>delivered := delivered w @ [(listeners w ! k, lang)],
              listeners := fold registry_after (actions (cbs (listeners w ! k))) (listeners w)\<rparr>"
    have upd:
      "(w\<lparr>storage := s, console := c, currentLanguage := a, i18n_language := i\<rparr>)
         \<lparr>delivered := delivered w @ [(listeners w ! k, lang)],
          listeners := fold registry_after (actions (cbs (listeners w ! k))) (listeners w)\<rparr> =
       w'\<lparr>storage := s, console := c, currentLanguage := a, i18n_language := i\<rparr>"
      by (simp add: w'_def)
    show ?thesis
      using True Suc.IH [of "Suc k" w']
      by (cases "throws (cbs (listeners w ! k))")
        (simp_all add: invoke_eq upd w'_def [symmetric])
  qed
qed

lemma forEach_listeners_storage:
  "storage (snd (forEach_listeners cbs lang n k w)) = storage w"
proof (induction n arbitrary: k w)
  case 0
  then show ?case by simp
next
  case (Suc n)
  show ?case
  proof (cases "k < length (listeners w)")
    case False
    then show ?thesis using Suc.IH [of "Suc k" w] by simp
  next
    case True
    then show ?thesis
      using Suc.IH [of "Suc k" "w\<lparr>delivered := delivered w @ [(listeners w ! k, lang)],
        listeners := fold registry_after (actions (cbs (listeners w ! k))) (listeners w)\<rparr>"]
      by (cases "throws (cbs (listeners w ! k))") (simp_all add: invoke_eq)
  qed
qed

lemma emit_storage: "storage (snd (emit cbs lang w)) = storage w"
  by (simp add: emit_def forEach_listeners_storage)

lemma emit_frame:
  "emit cbs lang (w\<lparr>storage := s, console := c, currentLanguage := a, i18n_language := i\<rparr>) =
     (fst (emit cbs lang w),
      (snd (emit cbs lang w))
        \<lparr>storage := s, console := c, currentLanguage := a, i18n_language := i\<rparr>)"
  by (simp add: emit_def forEach_listeners_frame)

lemma emit_after_failed_save:
  "emit cbs lang (w\<lparr>console := c, currentLanguage := a, i18n_language := i\<rparr>) =
     (fst (emit cbs lang w),
      (snd (emit cbs lang w))\<lparr>console := c, currentLanguage := a, i18n_language := i\<rparr>)"
proof -
  have "storage (snd (emit cbs lang w)) = storage w"
    by (simp add: emit_storage)
  then show ?thesis
    using emit_frame [where w = w and s = "storage w"] by simp
qed

lemma changeLanguage_unfold:
  assumes "language \<in> set AppLanguage_values" and "changeLanguage_throws env language = None"
  shows "changeLanguage env language w =
     (let r = emit (callbacks env) language
                (saveLanguage env language
                   (w\<lparr>i18n_language := Some language, currentLanguage := language\<rparr>))
      in (fst r,
          console_add
            (case fst r of
               Threw e \<Rightarrow> Err ''Failed to change language:'' e
             | Returned \<Rightarrow> Log (''Language changed to: '' @ language))
            (snd r)))"
  using assms
  by (simp add: changeLanguage_def i18n_changeLanguage_def Let_def split_beta
      split: prod.splits completion.splits)

lemma changeLanguage_engine_failure:
  assumes "language \<in> set AppLanguage_values" and "changeLanguage_throws env language = Some e"
  shows "changeLanguage env language w =
           (Threw e, w\<lparr>console := console w @ [Err ''Failed to change language:'' e]\<rparr>)"
  using assms by (simp add: changeLanguage_def i18n_changeLanguage_def console_add_def)

text \<open>
  Whether the store accepts the saved language has no bearing on how \<open>changeLanguage\<close>
  completes, on the active language, on the listeners called or on the engine: two
  environments that differ in \<open>set_throws\<close> only agree on all of them, whatever the engine
  and the callbacks do.
\<close>

lemma changeLanguage_save_outcome_irrelevant:
  assumes "language \<in> set AppLanguage_values"
  shows "fst (changeLanguage env language w) =
           fst (changeLanguage (env\<lparr>set_throws := st\<rparr>) language w)
       \<and> currentLanguage (snd (changeLanguage env language w)) =
           currentLanguage (snd (changeLanguage (env\<lparr>set_throws := st\<rparr>) language w))
       \<and> delivered (snd (changeLanguage env language w)) =
           delivered (snd (changeLanguage (env\<lparr>set_throws := st\<rparr>) language w))
       \<and> listeners (snd (changeLanguage env language w)) =
           listeners (snd (changeLanguage (env\<lparr>set_throws := st\<rparr>) language w))
       \<and> i18n_language (snd (changeLanguage env language w)) =
           i18n_language (snd (changeLanguage (env\<lparr>set_throws := st\<rparr>) language w))"
proof (cases "changeLanguage_throws env language")
  case (Some e)
  then show ?thesis
    using assms by (simp add: changeLanguage_engine_failure)
next
  case None
  obtain s c where 1:
    "saveLanguage env language (w\<lparr>i18n_language := Some language, currentLanguage := language\<rparr>) =
       w\<lparr>storage := s, console := c, currentLanguage := language,
         i18n_language := Some language\<rparr>"
    using saveLanguage_shape by blast
  obtain s' c' where 2:
    "saveLanguage (env\<lparr>set_throws := st\<rparr>) language
         (w\<lparr>i18n_language := Some language, currentLanguage := language\<rparr>) =
       w\<lparr>storage := s', console := c', currentLanguage := language,
         i18n_language := Some language\<rparr>"
    using saveLanguage_shape by blast
  show ?thesis
    using assms None
    by (simp add: changeLanguage_unfold 1 2 emit_frame Let_def console_add_def)
qed

text \<open>
  Claim C8. For every supported target language, when the store throws on persisting the
  saved language (so the engine has accepted the switch), the error is logged and
  swallowed: the active language is the target, the store is as it was, and the emit takes
  place, completing \<open>changeLanguage\<close> the way it completes itself. With registered listeners
  that return without touching the registry, \<open>changeLanguage\<close> returns normally and every registered
  listener has been called once, in order, with the target language.
\<close>

theorem changeLanguage_persistence_failure:
  assumes "language \<in> set AppLanguage_values"
    and "set_throws env CURRENT_LANGUAGE = Some e"
    and "changeLanguage_throws env language = None"
  shows "currentLanguage (snd (changeLanguage env language w)) = language
       \<and> storage (snd (changeLanguage env language w)) = storage w
       \<and> Err ''Failed to save language:'' e \<in> set (console (snd (changeLanguage env language w)))
       \<and> fst (changeLanguage env language w) = fst (emit (callbacks env) language w)
       \<and> delivered (snd (changeLanguage env language w)) =
           delivered (snd (emit (callbacks env) language w))
       \<and> ((\<forall>l \<in> set (listeners w).
              actions (callbacks env l) = [] \<and> throws (callbacks env l) = None) \<longrightarrow>
            changeLanguage env language w =
              (Returned,
               w\<lparr>i18n_language := Some language,
                 currentLanguage := language,
                 console := console w @ [Err ''Failed to save language:'' e,
                                         Log (''Language changed to: '' @ language)],
                 delivered := delivered w @ map (\<lambda>l. (l, language)) (listeners w)\<rparr>))"
proof -
  define c where "c = console w @ [Err ''Failed to save language:'' e]"
  have sv: "saveLanguage env language
      (w\<lparr>i18n_language := Some language, currentLanguage := language\<rparr>) =
      w\<lparr>console := c, currentLanguage := language, i18n_language := Some language\<rparr>"
    by (simp add: saveLanguage_failure [OF assms(2)] c_def)
  have cl: "changeLanguage env language w =
      (fst (emit (callbacks env) language w),
       console_add
         (case fst (emit (callbacks env) language w) of
            Threw x \<Rightarrow> Err ''Failed to change language:'' x
          | Returned \<Rightarrow> Log (''Language changed to: '' @ language))
         ((snd (emit (callbacks env) language w))
            \<lparr>console := c, currentLanguage := language,
             i18n_language := Some language\<rparr>))"
    by (simp add: changeLanguage_unfold [OF assms(1,3)] sv emit_after_failed_save Let_def)
  have general:
    "currentLanguage (snd (changeLanguage env language w)) = language
     \<and> storage (snd (changeLanguage env language w)) = storage w
     \<and> Err ''Failed to save language:'' e \<in> set (console (snd (changeLanguage env language w)))
     \<and> fst (changeLanguage env language w) = fst (emit (callbacks env) language w)
     \<and> delivered (snd (changeLanguage env language w)) =
         delivered (snd (emit (callbacks env) language w))"
    by (simp add: cl console_add_def c_def emit_storage)
  have quiet: "changeLanguage env language w =
      (Returned,
       w\<lparr>i18n_language := Some language,
         currentLanguage := language,
         console := console w @ [Err ''Failed to save language:'' e,
                                 Log (''Language changed to: '' @ language)],
         delivered := delivered w @ map (\<lambda>l. (l, language)) (listeners w)\<rparr>)"
    if q: "\<forall>l \<in> set (listeners w).
             actions (callbacks env l) = [] \<and> throws (callbacks env l) = None"
    by (simp add: cl emit_quiet [OF q] console_add_def c_def)
  show ?thesis
    using general quiet by blast
qed

theorem changeLanguage_persistence_failure_witness:
  "''fr'' \<in> set AppLanguage_values
   \<and> set_throws disk_full_env CURRENT_LANGUAGE = Some (Error ''disk full'')
   \<and> changeLanguage_throws disk_full_env ''fr'' = None
   \<and> listeners demo_world = [1, 2]
   \<and> actions (callbacks disk_full_env 1) = [] \<and> throws (callbacks disk_full_env 1) = None
   \<and> actions (callbacks disk_full_env 2) = [] \<and> throws (callbacks disk_full_env 2) = None
   \<and> fst (changeLanguage disk_full_env ''fr'' demo_world) = Returned
   \<and> currentLanguage (snd (changeLanguage disk_full_env ''fr'' demo_world)) = ''fr''
   \<and> delivered (snd (changeLanguage disk_full_env ''fr'' demo_world)) = [(1, ''fr''), (2, ''fr'')]
   \<and> storage (snd (changeLanguage disk_full_env ''fr'' demo_world)) = storage demo_world
   \<and> console (snd (changeLanguage disk_full_env ''fr'' demo_world)) =
       [Err ''Failed to save language:'' (Error ''disk full''), Log ''Language changed to: fr'']"
proof -
  have 1: "''fr'' \<in> set AppLanguage_values"
    by (simp add: AppLanguage_values_def)
  have 2: "set_throws disk_full_env CURRENT_LANGUAGE = Some (Error ''disk full'')"
    by (simp add: disk_full_env_def always_throws_def)
  have 3: "changeLanguage_throws disk_full_env ''fr'' = None"
    by (simp add: disk_full_env_def demo_env_def never_throws_def)
  have ls: "listeners demo_world = [1, 2]" "delivered demo_world = []" "console demo_world = []"
    by (simp_all add: demo_world_def)
  have cb: "callbacks disk_full_env l = \<lparr>actions = [], throws = None\<rparr>" for l
    by (simp add: disk_full_env_def demo_env_def quiet_callback_def)
  have 4: "\<forall>l \<in> set (listeners demo_world).
      actions (callbacks disk_full_env l) = [] \<and> throws (callbacks disk_full_env l) = None"
    by (simp add: cb)
  have "changeLanguage disk_full_env ''fr'' demo_world =
      (Returned,
       demo_world\<lparr>i18n_language := Some ''fr'',
         currentLanguage := ''fr'',
         console := console demo_world @ [Err ''Failed to save language:'' (Error ''disk full''),
                                 Log (''Language changed to: '' @ ''fr'')],
         delivered := delivered demo_world @ map (\<lambda>l. (l, ''fr'')) (listeners demo_world)\<rparr>)"
    using changeLanguage_persistence_failure [OF 1 2 3, of demo_world] 4 by blast
  then show ?thesis
    using 1 2 3 by (simp add: ls cb)
qed

section \<open>The lookup t\<close>

text \<open>
  Claim C5, as the code has it. For a falsy key (\<^verbatim>\<open>undefined\<close> or the empty string)
  \<open>t\<close> returns the engine's lookup function itself. For every other key, in the active
  table or not, it returns the string the engine's lookup gives for that key and the
  options: what a key the table lacks resolves to is the engine's answer.
\<close>

theorem t_falsy_or_engine:
  "(\<not> truthy key \<longrightarrow> LocalizationService_t i18n_t key options = LookupFunction)
   \<and> (truthy key \<longrightarrow>
        LocalizationService_t i18n_t key options = Resolved (i18n_t (the key) options))"
  by (simp add: LocalizationService_t_def)

theorem t_falsy_or_engine_witness:
  "LocalizationService_t (demo_i18n_t demo_table) None () = LookupFunction
   \<and> LocalizationService_t (demo_i18n_t demo_table) (Some '''') () = LookupFunction
   \<and> LocalizationService_t (demo_i18n_t demo_table) (Some ''greeting'') () = Resolved ''Hello''"
  using t_falsy_or_engine [of None "demo_i18n_t demo_table" "()"]
    t_falsy_or_engine [of "Some ''''" "demo_i18n_t demo_table" "()"]
    t_falsy_or_engine [of "Some ''greeting''" "demo_i18n_t demo_table" "()"]
  by (simp add: truthy_def demo_i18n_t_def demo_table_def)

text \<open>
  Claim C5 as stated fails for a truthy key the table lacks: the result is a string, not
  the lookup function.
\<close>

theorem t_absent_key_counterexample:
  "demo_table ''no.such.key'' = None
   \<and> LocalizationService_t (demo_i18n_t demo_table) (Some ''no.such.key'') () \<noteq> LookupFunction
   \<and> LocalizationService_t (demo_i18n_t demo_table) (Some ''no.such.key'') () =
       Resolved ''no.such.key''"
  by (simp add: LocalizationService_t_def demo_i18n_t_def demo_table_def truthy_def)

end
